theory Spec2Isabelle
  imports Complex_Main "HOL-Library.Multiset"
begin

section \<open>JavaScript values read from the session logs\<close>

text \<open>
  The parsers of \<^verbatim>\<open>SessionParser\<close> read their events with \<^verbatim>\<open>JSON.parse\<close> and
  then use them dynamically typed.  A value is therefore modelled as a JSON tree, with
  \<^verbatim>\<open>undefined\<close> added for the result of reading a property that is not there.
  Numbers are exact rationals: the rounding and the overflow of IEEE doubles are not part
  of the model.  An object is an association list in which the first binding of a key is
  the one that is read.
\<close>

datatype jsv =
    JUndefined
  | JNull
  | JBool bool
  | JNum rat
  | JStr string
  | JArr "jsv list"
  | JObj "(string \<times> jsv) list"

text \<open>\<^verbatim>\<open>if (v)\<close>, \<^verbatim>\<open>!v\<close>, \<^verbatim>\<open>a || b\<close>: the falsy values are undefined, null, false, 0
  and the empty string.\<close>

fun truthy :: "jsv \<Rightarrow> bool" where
  "truthy JUndefined = False"
| "truthy JNull = False"
| "truthy (JBool b) = b"
| "truthy (JNum n) = (n \<noteq> 0)"
| "truthy (JStr s) = (s \<noteq> [])"
| "truthy (JArr xs) = True"
| "truthy (JObj kvs) = True"

definition orJs :: "jsv \<Rightarrow> jsv \<Rightarrow> jsv" where
  "orJs a b = (if truthy a then a else b)"

definition nullish :: "jsv \<Rightarrow> bool" where
  "nullish v = (v = JNull \<or> v = JUndefined)"

text \<open>\<^verbatim>\<open>v.k\<close> for a value that is neither null nor undefined (on those JavaScript
  throws a TypeError, which every caller below tests for first).  None of the property
  names the parsers read is a built-in property of a string, a number, a boolean or an
  array, so only objects answer.\<close>

fun getProp :: "jsv \<Rightarrow> string \<Rightarrow> jsv" where
  "getProp (JObj kvs) k = (case map_of kvs k of Some v \<Rightarrow> v | None \<Rightarrow> JUndefined)"
| "getProp v k = JUndefined"

text \<open>\<^verbatim>\<open>v?.k\<close>\<close>

definition optProp :: "jsv \<Rightarrow> string \<Rightarrow> jsv" where
  "optProp v k = (if nullish v then JUndefined else getProp v k)"

text \<open>
  The number-typed fields of \<^verbatim>\<open>SessionStats\<close>.  \<open>Untracked\<close> stands for a
  JavaScript value this development does not follow: it arises only where a log carries a
  string, an array or an object in the place of a number (JavaScript would then build a
  string by concatenation), and it absorbs every later operation.
\<close>

datatype jsnumber = Num rat | Untracked

text \<open>\<^verbatim>\<open>acc += v\<close> for a number \<open>acc\<close>\<close>

fun plusAssign :: "jsnumber \<Rightarrow> jsv \<Rightarrow> jsnumber" where
  "plusAssign (Num a) (JNum n) = Num (a + n)"
| "plusAssign (Num a) (JBool b) = Num (a + (if b then 1 else 0))"
| "plusAssign a v = Untracked"

text \<open>\<^verbatim>\<open>if (v) acc += v\<close>\<close>

definition addIfTruthy :: "jsnumber \<Rightarrow> jsv \<Rightarrow> jsnumber" where
  "addIfTruthy acc v = (if truthy v then plusAssign acc v else acc)"

text \<open>\<^verbatim>\<open>v || 0\<close> stored in a number-typed variable\<close>

definition orZero :: "jsv \<Rightarrow> jsnumber" where
  "orZero v = (if truthy v then (case v of JNum n \<Rightarrow> Num n | _ \<Rightarrow> Untracked) else Num 0)"

text \<open>\<^verbatim>\<open>a > 0 || b > 0\<close>; \<open>None\<close> when the answer depends on an untracked value.\<close>

fun anyPositive :: "jsnumber \<Rightarrow> jsnumber \<Rightarrow> bool option" where
  "anyPositive (Num a) (Num b) = Some (0 < a \<or> 0 < b)"
| "anyPositive (Num a) Untracked = (if 0 < a then Some True else None)"
| "anyPositive Untracked b = None"

section \<open>Strings and paths\<close>

text \<open>\<^verbatim>\<open>s.split(c)\<close> for a one-character separator\<close>

fun splitOn :: "char \<Rightarrow> string \<Rightarrow> string list" where
  "splitOn c [] = [[]]"
| "splitOn c (x # xs) =
     (if x = c then [] # splitOn c xs
      else (case splitOn c xs of [] \<Rightarrow> [[x]] | w # ws \<Rightarrow> (x # w) # ws))"

text \<open>\<^verbatim>\<open>parts.join('/')\<close>\<close>

fun joinSlash :: "string list \<Rightarrow> string" where
  "joinSlash [] = []"
| "joinSlash [w] = w"
| "joinSlash (w # ws) = w @ ''/'' @ joinSlash ws"

text \<open>\<^verbatim>\<open>parts.slice(-2)\<close>\<close>

definition lastTwo :: "'a list \<Rightarrow> 'a list" where
  "lastTwo xs = drop (length xs - 2) xs"

definition startsWith :: "string \<Rightarrow> string \<Rightarrow> bool" where
  "startsWith s k = (take (length k) s = k)"

definition endsWith :: "string \<Rightarrow> string \<Rightarrow> bool" where
  "endsWith s k = (length k \<le> length s \<and> drop (length s - length k) s = k)"

fun jsIncludes :: "string \<Rightarrow> string \<Rightarrow> bool" where
  "jsIncludes [] k = (k = [])"
| "jsIncludes (x # xs) k = (startsWith (x # xs) k \<or> jsIncludes xs k)"

text \<open>Node's \<^verbatim>\<open>path\<close> module on POSIX, for the normalised absolute paths that
  \<^verbatim>\<open>findSessionFiles\<close> builds with \<^verbatim>\<open>path.join\<close> (no trailing separator).\<close>

definition basename :: "string \<Rightarrow> string" where
  "basename p = last (splitOn CHR ''/'' p)"

definition dirname :: "string \<Rightarrow> string" where
  "dirname p =
     (let parts = splitOn CHR ''/'' p in
      if length parts \<le> 1 then ''.''
      else let d = joinSlash (butlast parts) in if d = [] then ''/'' else d)"

definition extname :: "string \<Rightarrow> string" where
  "extname p =
     (let b = basename p; parts = splitOn CHR ''.'' b in
      if length parts \<le> 1 \<or> b = ''..'' then []
      else if length (last parts) + 1 = length b then []
      else CHR ''.'' # last parts)"

text \<open>\<^verbatim>\<open>path.basename(p, path.extname(p))\<close>\<close>

definition basenameNoExt :: "string \<Rightarrow> string" where
  "basenameNoExt p = (let b = basename p in take (length b - length (extname p)) b)"

text \<open>\<^verbatim>\<open>path.relative(base, p)\<close> for a path \<open>p\<close> below \<open>base\<close>, the only
  way \<^verbatim>\<open>parseClaudeSession\<close> is called.\<close>

definition relative :: "string \<Rightarrow> string \<Rightarrow> string" where
  "relative base p = (if startsWith p (base @ ''/'') then drop (length base + 1) p else p)"

section \<open>The data model\<close>

datatype Provider = claude | codex | gemini

text \<open>\<^verbatim>\<open>ModelPricing\<close>: the fields \<^verbatim>\<open>input\<close> and \<^verbatim>\<open>output\<close>, prices per million
  tokens.\<close>

record ModelPricing =
  inputPer1M :: rat
  outputPer1M :: rat

record SessionStats =
  path :: string
  provider :: Provider
  sessionId :: string
  project :: "string option"
  messages :: nat
  userMessages :: nat
  assistantMessages :: nat
  toolUses :: "nat option"
  inputTokens :: jsnumber
  outputTokens :: jsnumber
  cacheReadTokens :: "jsnumber option"
  cacheCreationTokens :: "jsnumber option"
  costUsd :: jsnumber
  model :: jsv
  firstMessage :: jsv
  lastMessage :: jsv
  duration :: jsnumber

text \<open>
  What the runtime and the libraries give: the home directory of \<^verbatim>\<open>os.homedir()\<close>,
  \<^verbatim>\<open>new Date(v).getTime()\<close>, and the text SQLite stores for a number that is bound to
  a column of type TEXT.  The development covers logs whose timestamps are valid dates,
  for which \<^verbatim>\<open>getTime\<close> is a number.
\<close>

record host =
  homedir :: string
  getTime :: "jsv \<Rightarrow> rat"
  sqlText :: "rat \<Rightarrow> string"

definition SESSION_DIRS :: "host \<Rightarrow> Provider \<Rightarrow> string" where
  "SESSION_DIRS h p =
     (case p of
        claude \<Rightarrow> homedir h @ ''/.claude/projects''
      | codex \<Rightarrow> homedir h @ ''/.codex/sessions''
      | gemini \<Rightarrow> homedir h @ ''/.gemini/tmp'')"

text \<open>
  A line of a log as the parsers meet it: blank after \<^verbatim>\<open>trim()\<close>, rejected by
  \<^verbatim>\<open>JSON.parse\<close>, or parsed to a value.  A file as \<^verbatim>\<open>fs\<close> reads it: unreadable,
  or its lines together with the result of \<^verbatim>\<open>JSON.parse\<close> on the whole text
  (\<open>None\<close> for a SyntaxError).  Both are views of the same text; a parser uses one of
  them.
\<close>

datatype line = Blank | Malformed | Event jsv

datatype content = Unreadable | Readable "line list" "jsv option"

section \<open>Pricing\<close>

definition PRICING :: "(string \<times> ModelPricing) list" where
  "PRICING =
    [(''claude-sonnet-4-20250514'', \<lparr>inputPer1M = 3, outputPer1M = 15\<rparr>),
     (''claude-3-5-sonnet-20241022'', \<lparr>inputPer1M = 3, outputPer1M = 15\<rparr>),
     (''claude-3-5-sonnet-20240620'', \<lparr>inputPer1M = 3, outputPer1M = 15\<rparr>),
     (''claude-3-opus-20240229'', \<lparr>inputPer1M = 15, outputPer1M = 75\<rparr>),
     (''claude-3-haiku-20240307'', \<lparr>inputPer1M = 1/4, outputPer1M = 5/4\<rparr>),
     (''claude-opus-4-20250514'', \<lparr>inputPer1M = 15, outputPer1M = 75\<rparr>),
     (''gpt-4o'', \<lparr>inputPer1M = 5/2, outputPer1M = 10\<rparr>),
     (''gpt-4o-mini'', \<lparr>inputPer1M = 15/100, outputPer1M = 6/10\<rparr>),
     (''gpt-4-turbo'', \<lparr>inputPer1M = 10, outputPer1M = 30\<rparr>),
     (''o1'', \<lparr>inputPer1M = 15, outputPer1M = 60\<rparr>),
     (''o1-mini'', \<lparr>inputPer1M = 11/10, outputPer1M = 44/10\<rparr>),
     (''o3-mini'', \<lparr>inputPer1M = 11/10, outputPer1M = 44/10\<rparr>),
     (''gemini-2.0-flash'', \<lparr>inputPer1M = 1/10, outputPer1M = 4/10\<rparr>),
     (''gemini-1.5-pro'', \<lparr>inputPer1M = 125/100, outputPer1M = 5\<rparr>),
     (''gemini-1.5-flash'', \<lparr>inputPer1M = 75/1000, outputPer1M = 3/10\<rparr>),
     (''default'', \<lparr>inputPer1M = 3, outputPer1M = 15\<rparr>)]"

text \<open>\<^verbatim>\<open>PRICING[k]\<close> for a key of the table\<close>

definition priceOf :: "string \<Rightarrow> ModelPricing" where
  "priceOf k = (case map_of PRICING k of Some p \<Rightarrow> p | None \<Rightarrow> \<lparr>inputPer1M = 3, outputPer1M = 15\<rparr>)"

text \<open>Property names every object inherits: \<^verbatim>\<open>PRICING[model]\<close> is truthy for them
  although the table has no such key, and what is returned is not a price.\<close>

definition inheritedKeys :: "string list" where
  "inheritedKeys =
    [''constructor'', ''toString'', ''valueOf'', ''toLocaleString'', ''hasOwnProperty'',
     ''isPrototypeOf'', ''propertyIsEnumerable'', ''__proto__'', ''__defineGetter__'',
     ''__defineSetter__'', ''__lookupGetter__'', ''__lookupSetter__'']"

datatype pricing_result = Priced ModelPricing | TypeError | UntrackedPrice

text \<open>
  \<^verbatim>\<open>getModelPricing\<close>.  A model that is a number or \<^verbatim>\<open>true\<close> has no
  \<^verbatim>\<open>startsWith\<close>: the prefix loop throws.  For an array or an object the key is its
  string image, which is not followed here.
\<close>

definition getModelPricing :: "jsv \<Rightarrow> pricing_result" where
  "getModelPricing m =
     (if \<not> truthy m then Priced (priceOf ''default'')
      else case m of
        JStr s \<Rightarrow>
          (if s \<in> set inheritedKeys then UntrackedPrice
           else case map_of PRICING s of
             Some p \<Rightarrow> Priced p
           | None \<Rightarrow>
              (case find (\<lambda>k. startsWith s k \<or> jsIncludes s k) (map fst PRICING) of
                 Some k \<Rightarrow> Priced (priceOf k)
               | None \<Rightarrow>
                  if jsIncludes s ''opus'' then Priced (priceOf ''claude-3-opus-20240229'')
                  else if jsIncludes s ''sonnet'' then Priced (priceOf ''claude-3-5-sonnet-20241022'')
                  else if jsIncludes s ''haiku'' then Priced (priceOf ''claude-3-haiku-20240307'')
                  else if jsIncludes s ''gpt-4o-mini'' then Priced (priceOf ''gpt-4o-mini'')
                  else if jsIncludes s ''gpt-4o'' then Priced (priceOf ''gpt-4o'')
                  else if jsIncludes s ''gemini'' then Priced (priceOf ''gemini-2.0-flash'')
                  else Priced (priceOf ''default'')))
      | JNum n \<Rightarrow> TypeError
      | JBool b \<Rightarrow> TypeError
      | _ \<Rightarrow> UntrackedPrice)"

text \<open>\<^verbatim>\<open>calculateCost\<close>, once the pricing is known\<close>

fun costOf :: "jsnumber \<Rightarrow> jsnumber \<Rightarrow> ModelPricing \<Rightarrow> jsnumber" where
  "costOf (Num i) (Num oo) p = Num (i / 1000000 * inputPer1M p + oo / 1000000 * outputPer1M p)"
| "costOf i oo p = Untracked"

datatype cost_result = Cost jsnumber | CostTypeError | CostUntracked

definition calculateCost :: "jsnumber \<Rightarrow> jsnumber \<Rightarrow> jsv \<Rightarrow> cost_result" where
  "calculateCost i oo m =
     (case getModelPricing m of
        Priced p \<Rightarrow> Cost (costOf i oo p)
      | TypeError \<Rightarrow> CostTypeError
      | UntrackedPrice \<Rightarrow> CostUntracked)"

section \<open>The parsers\<close>

subsection \<open>Project names\<close>

text \<open>\<^verbatim>\<open>extractProjectFromPath\<close>\<close>

definition extractProjectFromPath :: "string \<Rightarrow> string" where
  "extractProjectFromPath cwdPath =
     (let parts = filter (\<lambda>w. w \<noteq> []) (splitOn CHR ''/'' cwdPath) in
      if 2 \<le> length parts then joinSlash (lastTwo parts)
      else if parts = [] then ''Unknown'' else last parts)"

text \<open>\<^verbatim>\<open>extractClaudeProjectName\<close>\<close>

definition extractClaudeProjectName :: "string \<Rightarrow> string \<Rightarrow> string" where
  "extractClaudeProjectName filePath baseDir =
     (case splitOn CHR ''/'' (relative baseDir filePath) of
        [] \<Rightarrow> ''Unknown''
      | encoded # rest \<Rightarrow>
          if startsWith encoded ''-'' then
            (let decoded = map (\<lambda>c. if c = CHR ''-'' then CHR ''/'' else c) encoded;
                 decodedParts = filter (\<lambda>w. w \<noteq> []) (splitOn CHR ''/'' decoded) in
             if 2 \<le> length decodedParts then joinSlash (lastTwo decodedParts)
             else if decodedParts = [] then encoded else last decodedParts)
          else encoded)"

subsection \<open>Provider A: \<^verbatim>\<open>parseClaudeSession\<close>\<close>

definition claudeInit :: "host \<Rightarrow> string \<Rightarrow> SessionStats" where
  "claudeInit h filePath =
     \<lparr>path = filePath, provider = claude, sessionId = basename (dirname filePath),
      project = Some (extractClaudeProjectName filePath (SESSION_DIRS h claude)),
      messages = 0, userMessages = 0, assistantMessages = 0, toolUses = Some 0,
      inputTokens = Num 0, outputTokens = Num 0,
      cacheReadTokens = Some (Num 0), cacheCreationTokens = Some (Num 0),
      costUsd = Num 0, model = JNull, firstMessage = JNull, lastMessage = JNull,
      duration = Num 0\<rparr>"

text \<open>\<^verbatim>\<open>content.some(c => c.type === 'tool_use')\<close>: \<open>None\<close> is the TypeError of
  reading \<^verbatim>\<open>c.type\<close> on a null element met before any match.\<close>

fun someToolUse :: "jsv list \<Rightarrow> bool option" where
  "someToolUse [] = Some False"
| "someToolUse (c # cs) =
     (if nullish c then None
      else if getProp c ''type'' = JStr ''tool_use'' then Some True
      else someToolUse cs)"

text \<open>The condition of the tool-use test, with its short-circuit order.\<close>

definition claudeToolUse :: "jsv \<Rightarrow> bool option" where
  "claudeToolUse ev =
     (if getProp ev ''type'' = JStr ''tool_use'' then Some True
      else if truthy (getProp ev ''tool_use'') then Some True
      else case optProp (getProp ev ''message'') ''content'' of
             JArr cs \<Rightarrow> someToolUse cs
           | c \<Rightarrow> Some False)"

definition claudeRoles :: "jsv \<Rightarrow> SessionStats \<Rightarrow> SessionStats" where
  "claudeRoles ev st =
     (let eventType = orJs (getProp ev ''type'') (JStr []);
          messageRole =
            orJs (orJs (optProp (getProp ev ''message'') ''role'') (getProp ev ''role'')) (JStr [])
      in if eventType = JStr ''user'' \<or> messageRole = JStr ''user''
           then st\<lparr>userMessages := userMessages st + 1\<rparr>
         else if eventType = JStr ''assistant'' \<or> messageRole = JStr ''assistant''
           then st\<lparr>assistantMessages := assistantMessages st + 1\<rparr>
         else st)"

text \<open>\<^verbatim>\<open>event.message?.usage || event.usage || {}\<close>\<close>

definition claudeUsage :: "jsv \<Rightarrow> jsv" where
  "claudeUsage ev =
     orJs (orJs (optProp (getProp ev ''message'') ''usage'') (getProp ev ''usage'')) (JObj [])"

definition claudeTokens :: "jsv \<Rightarrow> SessionStats \<Rightarrow> SessionStats" where
  "claudeTokens ev st =
     (let usage = claudeUsage ev in
      st\<lparr>inputTokens := addIfTruthy (inputTokens st) (getProp usage ''input_tokens''),
         outputTokens := addIfTruthy (outputTokens st) (getProp usage ''output_tokens''),
         cacheReadTokens :=
           map_option (\<lambda>a. addIfTruthy a (getProp usage ''cache_read_input_tokens''))
             (cacheReadTokens st),
         cacheCreationTokens :=
           map_option (\<lambda>a. addIfTruthy a (getProp usage ''cache_creation_input_tokens''))
             (cacheCreationTokens st)\<rparr>)"

definition claudeCost :: "jsv \<Rightarrow> SessionStats \<Rightarrow> SessionStats" where
  "claudeCost ev st = st\<lparr>costUsd := addIfTruthy (costUsd st) (getProp ev ''costUsd'')\<rparr>"

text \<open>The timestamp bookkeeping shared by the Claude and the Codex loop.\<close>

definition trackTimestamp :: "jsv \<Rightarrow> SessionStats \<Rightarrow> SessionStats" where
  "trackTimestamp ts st =
     (if truthy ts
      then st\<lparr>firstMessage := (if \<not> truthy (firstMessage st) then ts else firstMessage st),
              lastMessage := ts\<rparr>
      else st)"

definition claudeModel :: "jsv \<Rightarrow> SessionStats \<Rightarrow> SessionStats" where
  "claudeModel ev st =
     (let m = orJs (optProp (getProp ev ''message'') ''model'') (getProp ev ''model'') in
      if truthy m then st\<lparr>model := m\<rparr> else st)"

text \<open>
  The body of the inner \<^verbatim>\<open>try\<close> for one parsed line.  A TypeError (the event is
  \<^verbatim>\<open>null\<close>, or the tool-use test meets a null element) leaves the statements before
  it done and skips the rest of the line.
\<close>

definition claudeEvent :: "SessionStats \<Rightarrow> jsv \<Rightarrow> SessionStats" where
  "claudeEvent st ev =
     (let st1 = st\<lparr>messages := messages st + 1\<rparr> in
      if nullish ev then st1
      else
        let st2 = claudeRoles ev st1 in
        case claudeToolUse ev of
          None \<Rightarrow> st2
        | Some tu \<Rightarrow>
            let st3 = (if tu then st2\<lparr>toolUses := map_option Suc (toolUses st2)\<rparr> else st2) in
            claudeModel ev
              (trackTimestamp (orJs (getProp ev ''timestamp'') (getProp ev ''ts''))
                (claudeCost ev (claudeTokens ev st3))))"

fun claudeLine :: "SessionStats \<Rightarrow> line \<Rightarrow> SessionStats" where
  "claudeLine st Blank = st"
| "claudeLine st Malformed = st"
| "claudeLine st (Event ev) = claudeEvent st ev"

definition claudeLoop :: "SessionStats \<Rightarrow> line list \<Rightarrow> SessionStats" where
  "claudeLoop st ls = foldl claudeLine st ls"

text \<open>\<^verbatim>\<open>stats.costUsd === 0 && (stats.inputTokens > 0 || stats.outputTokens > 0)\<close>;
  \<open>None\<close> when the answer depends on an untracked value.\<close>

fun costMissing :: "jsnumber \<Rightarrow> jsnumber \<Rightarrow> jsnumber \<Rightarrow> bool option" where
  "costMissing (Num c) i oo = (if c \<noteq> 0 then Some False else anyPositive i oo)"
| "costMissing Untracked i oo = None"

text \<open>\<^verbatim>\<open>Math.max(0, end - start)\<close> when both timestamps are set\<close>

definition claudeDuration :: "host \<Rightarrow> SessionStats \<Rightarrow> SessionStats" where
  "claudeDuration h st =
     (if truthy (firstMessage st) \<and> truthy (lastMessage st)
      then st\<lparr>duration := Num (max 0 (getTime h (lastMessage st) - getTime h (firstMessage st)))\<rparr>
      else st)"

text \<open>
  What follows the loop inside the outer \<^verbatim>\<open>try\<close>.  A TypeError of the pricing lookup
  is caught by the outer \<^verbatim>\<open>catch\<close>: the record is returned as it is, without a
  duration.  Where the test or the price is untracked, so are cost and duration.
\<close>

definition claudeFinish :: "host \<Rightarrow> SessionStats \<Rightarrow> SessionStats" where
  "claudeFinish h st =
     (case costMissing (costUsd st) (inputTokens st) (outputTokens st) of
        Some False \<Rightarrow> claudeDuration h st
      | Some True \<Rightarrow>
          (case calculateCost (inputTokens st) (outputTokens st) (model st) of
             Cost c \<Rightarrow> claudeDuration h (st\<lparr>costUsd := c\<rparr>)
           | CostTypeError \<Rightarrow> st
           | CostUntracked \<Rightarrow> st\<lparr>costUsd := Untracked, duration := Untracked\<rparr>)
      | None \<Rightarrow> st\<lparr>costUsd := Untracked, duration := Untracked\<rparr>)"

definition parseClaudeSession :: "host \<Rightarrow> string \<Rightarrow> content \<Rightarrow> SessionStats" where
  "parseClaudeSession h filePath c =
     (case c of
        Unreadable \<Rightarrow> claudeInit h filePath
      | Readable ls whole \<Rightarrow> claudeFinish h (claudeLoop (claudeInit h filePath) ls))"

subsection \<open>Provider B: \<^verbatim>\<open>parseCodexSession\<close>\<close>

definition codexInit :: "string \<Rightarrow> SessionStats" where
  "codexInit filePath =
     \<lparr>path = filePath, provider = codex, sessionId = basenameNoExt filePath,
      project = None,
      messages = 0, userMessages = 0, assistantMessages = 0, toolUses = Some 0,
      inputTokens = Num 0, outputTokens = Num 0,
      cacheReadTokens = None, cacheCreationTokens = None,
      costUsd = Num 0, model = JNull, firstMessage = JNull, lastMessage = JNull,
      duration = Num 0\<rparr>"

text \<open>The record under construction together with the two local variables of the loop.\<close>

record codexLoopState =
  stats :: SessionStats
  lastTotalInput :: jsnumber
  lastTotalOutput :: jsnumber

text \<open>The \<^verbatim>\<open>session_meta\<close> step; \<open>None\<close> is the TypeError of calling
  \<^verbatim>\<open>split\<close> on a working directory that is not a string.\<close>

definition codexMeta :: "jsv \<Rightarrow> SessionStats \<Rightarrow> SessionStats option" where
  "codexMeta ev st =
     (if getProp ev ''type'' = JStr ''session_meta''
         \<and> truthy (optProp (getProp ev ''payload'') ''cwd'')
      then (case getProp (getProp ev ''payload'') ''cwd'' of
              JStr cwd \<Rightarrow> Some (st\<lparr>project := Some (extractProjectFromPath cwd)\<rparr>)
            | v \<Rightarrow> None)
      else Some st)"

text \<open>Roles, from a \<^verbatim>\<open>message\<close> payload and from an \<^verbatim>\<open>event_msg\<close> event.\<close>

definition codexRoles :: "jsv \<Rightarrow> SessionStats \<Rightarrow> SessionStats" where
  "codexRoles ev st =
     (let payload = getProp ev ''payload'';
          st1 = (if optProp payload ''type'' = JStr ''message''
                 then (if getProp payload ''role'' = JStr ''user''
                         then st\<lparr>userMessages := userMessages st + 1\<rparr>
                       else if getProp payload ''role'' = JStr ''assistant''
                         then st\<lparr>assistantMessages := assistantMessages st + 1\<rparr>
                       else st)
                 else st)
      in if getProp ev ''type'' = JStr ''event_msg'' \<and> truthy payload
         then (if getProp payload ''type'' = JStr ''user_message''
                 then st1\<lparr>userMessages := userMessages st1 + 1\<rparr>
               else if getProp payload ''type'' = JStr ''agent_message''
                 then st1\<lparr>assistantMessages := assistantMessages st1 + 1\<rparr>
               else st1)
         else st1)"

text \<open>The \<^verbatim>\<open>total_token_usage\<close> object of an event, when the event is a
  \<^verbatim>\<open>token_count\<close> event that carries one.\<close>

definition codexTokenUsage :: "jsv \<Rightarrow> jsv option" where
  "codexTokenUsage ev =
     (let payload = getProp ev ''payload'' in
      if getProp ev ''type'' = JStr ''event_msg'' \<and> truthy payload
         \<and> getProp payload ''type'' = JStr ''token_count''
         \<and> truthy (optProp (getProp payload ''info'') ''total_token_usage'')
      then Some (getProp (getProp payload ''info'') ''total_token_usage'')
      else None)"

definition codexModel :: "jsv \<Rightarrow> SessionStats \<Rightarrow> SessionStats" where
  "codexModel ev st =
     (if getProp ev ''type'' = JStr ''turn_context''
         \<and> truthy (optProp (getProp ev ''payload'') ''model'')
      then st\<lparr>model := getProp (getProp ev ''payload'') ''model''\<rparr>
      else st)"

definition codexEvent :: "codexLoopState \<Rightarrow> jsv \<Rightarrow> codexLoopState" where
  "codexEvent s ev =
     (let st1 = (stats s)\<lparr>messages := messages (stats s) + 1\<rparr> in
      if nullish ev then s\<lparr>stats := st1\<rparr>
      else case codexMeta ev st1 of
        None \<Rightarrow> s\<lparr>stats := st1\<rparr>
      | Some st2 \<Rightarrow>
          let st3 = codexRoles ev st2;
              s1 = (case codexTokenUsage ev of
                      Some usage \<Rightarrow>
                        s\<lparr>lastTotalInput := orZero (getProp usage ''input_tokens''),
                          lastTotalOutput := orZero (getProp usage ''output_tokens'')\<rparr>
                    | None \<Rightarrow> s)
          in s1\<lparr>stats :=
                 trackTimestamp (orJs (getProp ev ''timestamp'') (getProp ev ''created_at''))
                   (codexModel ev st3)\<rparr>)"

fun codexLine :: "codexLoopState \<Rightarrow> line \<Rightarrow> codexLoopState" where
  "codexLine s Blank = s"
| "codexLine s Malformed = s"
| "codexLine s (Event ev) = codexEvent s ev"

definition codexLoop :: "codexLoopState \<Rightarrow> line list \<Rightarrow> codexLoopState" where
  "codexLoop s ls = foldl codexLine s ls"

text \<open>A loop whose body can throw out of the whole function: \<open>Thrown\<close> carries the
  record as the exception left it.\<close>

datatype 'a attempt = Done 'a | Thrown 'a

text \<open>The loop over a whole-file array: \<^verbatim>\<open>msg.role\<close> throws on a null element,
  and no \<^verbatim>\<open>try\<close> surrounds the element.\<close>

fun codexArray :: "SessionStats \<Rightarrow> jsv list \<Rightarrow> SessionStats attempt" where
  "codexArray st [] = Done st"
| "codexArray st (msg # msgs) =
     (if nullish msg then Thrown st
      else if getProp msg ''role'' = JStr ''user''
        then codexArray (st\<lparr>userMessages := userMessages st + 1\<rparr>) msgs
      else if getProp msg ''role'' = JStr ''assistant''
        then codexArray (st\<lparr>assistantMessages := assistantMessages st + 1\<rparr>) msgs
      else codexArray st msgs)"

text \<open>\<^verbatim>\<open>if (stats.inputTokens > 0 || stats.outputTokens > 0) stats.costUsd =
  this.calculateCost(...)\<close>, the last statement of the Codex and of the Gemini parser.\<close>

definition costFromTokens :: "SessionStats \<Rightarrow> SessionStats" where
  "costFromTokens st =
     (case anyPositive (inputTokens st) (outputTokens st) of
        Some False \<Rightarrow> st
      | Some True \<Rightarrow>
          (case calculateCost (inputTokens st) (outputTokens st) (model st) of
             Cost c \<Rightarrow> st\<lparr>costUsd := c\<rparr>
           | CostTypeError \<Rightarrow> st
           | CostUntracked \<Rightarrow> st\<lparr>costUsd := Untracked\<rparr>)
      | None \<Rightarrow> st\<lparr>costUsd := Untracked\<rparr>)"

definition parseCodexSession :: "string \<Rightarrow> content \<Rightarrow> SessionStats" where
  "parseCodexSession filePath c =
     (case c of
        Unreadable \<Rightarrow> codexInit filePath
      | Readable ls whole \<Rightarrow>
          if endsWith filePath ''.jsonl'' then
            (let s = codexLoop \<lparr>stats = codexInit filePath, lastTotalInput = Num 0,
                                lastTotalOutput = Num 0\<rparr> ls
             in costFromTokens
                  ((stats s)\<lparr>inputTokens := lastTotalInput s, outputTokens := lastTotalOutput s\<rparr>))
          else
            (case whole of
               None \<Rightarrow> codexInit filePath
             | Some (JArr msgs) \<Rightarrow>
                 (case codexArray ((codexInit filePath)\<lparr>messages := length msgs\<rparr>) msgs of
                    Done st \<Rightarrow> costFromTokens st
                  | Thrown st \<Rightarrow> st)
             | Some v \<Rightarrow> costFromTokens (codexInit filePath)))"

subsection \<open>Provider C: \<^verbatim>\<open>parseGeminiSession\<close>\<close>

definition geminiInit :: "string \<Rightarrow> SessionStats" where
  "geminiInit filePath =
     \<lparr>path = filePath, provider = gemini, sessionId = basenameNoExt filePath,
      project = None,
      messages = 0, userMessages = 0, assistantMessages = 0, toolUses = None,
      inputTokens = Num 0, outputTokens = Num 0,
      cacheReadTokens = None, cacheCreationTokens = None,
      costUsd = Num 0, model = JStr ''gemini-2.0-flash'', firstMessage = JNull,
      lastMessage = JNull, duration = Num 0\<rparr>"

definition geminiEvent :: "SessionStats \<Rightarrow> jsv \<Rightarrow> SessionStats" where
  "geminiEvent st ev =
     (let st1 = st\<lparr>messages := messages st + 1\<rparr> in
      if nullish ev then st1
      else
        let st2 = (if getProp ev ''role'' = JStr ''user''
                     then st1\<lparr>userMessages := userMessages st1 + 1\<rparr>
                   else if getProp ev ''role'' = JStr ''model''
                     then st1\<lparr>assistantMessages := assistantMessages st1 + 1\<rparr>
                   else st1);
            um = getProp ev ''usageMetadata'';
            st3 = (if truthy um
                   then st2\<lparr>inputTokens :=
                              plusAssign (inputTokens st2)
                                (orJs (getProp um ''promptTokenCount'') (JNum 0)),
                            outputTokens :=
                              plusAssign (outputTokens st2)
                                (orJs (getProp um ''candidatesTokenCount'') (JNum 0))\<rparr>
                   else st2)
        in if truthy (getProp ev ''model'') then st3\<lparr>model := getProp ev ''model''\<rparr> else st3)"

fun geminiLine :: "SessionStats \<Rightarrow> line \<Rightarrow> SessionStats" where
  "geminiLine st Blank = st"
| "geminiLine st Malformed = st"
| "geminiLine st (Event ev) = geminiEvent st ev"

definition parseGeminiSession :: "string \<Rightarrow> content \<Rightarrow> SessionStats" where
  "parseGeminiSession filePath c =
     (case c of
        Unreadable \<Rightarrow> geminiInit filePath
      | Readable ls whole \<Rightarrow> costFromTokens (foldl geminiLine (geminiInit filePath) ls))"

section \<open>The persistent store (\<^verbatim>\<open>DatabaseManager\<close>)\<close>

text \<open>
  The two tables the sync engine uses, as lists of rows in insertion order.  A row of
  \<^verbatim>\<open>files\<close> has the columns \<^verbatim>\<open>path, provider, mtime, size, last_parsed\<close>; a row
  of \<^verbatim>\<open>sessions\<close> holds the values of a session record as \<^verbatim>\<open>upsertSession\<close> binds
  them.  The SQL engine itself is an external library: the statements are modelled by
  their meaning on the tables.
\<close>

record FileRow =
  filePath :: string
  fileProvider :: Provider
  mtime :: int
  fileSize :: int
  lastParsed :: int

record Database =
  files :: "FileRow list"
  sessions :: "SessionStats list"

text \<open>\<^verbatim>\<open>SELECT path, provider, mtime, size FROM files WHERE path = ?\<close>, first row\<close>

definition getFileRecord :: "Database \<Rightarrow> string \<Rightarrow> FileRow option" where
  "getFileRecord db fp = find (\<lambda>r. filePath r = fp) (files db)"

definition needsUpdate :: "Database \<Rightarrow> string \<Rightarrow> int \<Rightarrow> int \<Rightarrow> bool" where
  "needsUpdate db fp currentMtime currentSize =
     (case getFileRecord db fp of
        None \<Rightarrow> True
      | Some record \<Rightarrow> mtime record \<noteq> currentMtime \<or> fileSize record \<noteq> currentSize)"

definition getTrackedFiles :: "Database \<Rightarrow> Provider \<Rightarrow> string list" where
  "getTrackedFiles db p = map filePath (filter (\<lambda>r. fileProvider r = p) (files db))"

text \<open>
  What a column of type TEXT holds for a bound value: a string and \<^verbatim>\<open>null\<close> as they
  are; a number as its text (a boolean is bound as the number 1 or 0).  The columns
  \<^verbatim>\<open>model\<close>, \<^verbatim>\<open>first_message\<close> and \<^verbatim>\<open>last_message\<close> are of type TEXT.  An array
  or an object in their place is not followed here.
\<close>

definition textColumn :: "host \<Rightarrow> jsv \<Rightarrow> jsv" where
  "textColumn h v =
     (case v of
        JNum n \<Rightarrow> JStr (sqlText h n)
      | JBool b \<Rightarrow> JStr (sqlText h (if b then 1 else 0))
      | _ \<Rightarrow> v)"

text \<open>The row \<^verbatim>\<open>upsertSession\<close> writes: it binds \<^verbatim>\<open>project || null\<close>,
  \<^verbatim>\<open>toolUses || 0\<close>, \<^verbatim>\<open>cacheReadTokens || 0\<close>, \<^verbatim>\<open>cacheCreationTokens || 0\<close> and the
  other fields as they are, and the TEXT columns hold text.\<close>

definition boundRow :: "host \<Rightarrow> SessionStats \<Rightarrow> SessionStats" where
  "boundRow h s =
     s\<lparr>project := (case project s of Some [] \<Rightarrow> None | v \<Rightarrow> v),
       toolUses := Some (case toolUses s of Some n \<Rightarrow> n | None \<Rightarrow> 0),
       cacheReadTokens := Some (case cacheReadTokens s of Some n \<Rightarrow> n | None \<Rightarrow> Num 0),
       cacheCreationTokens :=
         Some (case cacheCreationTokens s of Some n \<Rightarrow> n | None \<Rightarrow> Num 0),
       model := textColumn h (model s),
       firstMessage := textColumn h (firstMessage s),
       lastMessage := textColumn h (lastMessage s)\<rparr>"

definition upsertSession :: "host \<Rightarrow> Database \<Rightarrow> SessionStats \<Rightarrow> Database" where
  "upsertSession h db s =
     (if \<exists>r \<in> set (sessions db). path r = path s
      then db\<lparr>sessions := map (\<lambda>r. if path r = path s then boundRow h s else r) (sessions db)\<rparr>
      else db\<lparr>sessions := sessions db @ [boundRow h s]\<rparr>)"

text \<open>\<^verbatim>\<open>upsertFileRecord\<close>; \<open>now\<close> is \<^verbatim>\<open>Date.now()\<close>.  The UPDATE leaves the
  provider column as it is.\<close>

definition upsertFileRecord ::
  "Database \<Rightarrow> string \<Rightarrow> Provider \<Rightarrow> int \<Rightarrow> int \<Rightarrow> int \<Rightarrow> Database" where
  "upsertFileRecord db fp p m sz now =
     (if \<exists>r \<in> set (files db). filePath r = fp
      then db\<lparr>files :=
                map (\<lambda>r. if filePath r = fp then r\<lparr>mtime := m, fileSize := sz, lastParsed := now\<rparr>
                          else r) (files db)\<rparr>
      else db\<lparr>files := files db @
                [\<lparr>filePath = fp, fileProvider = p, mtime = m, fileSize = sz, lastParsed = now\<rparr>]\<rparr>)"

text \<open>The two DELETE statements of \<^verbatim>\<open>cleanupDeletedFiles\<close> for one path\<close>

definition deleteFileAndSession :: "Database \<Rightarrow> string \<Rightarrow> Database" where
  "deleteFileAndSession db fp =
     db\<lparr>files := filter (\<lambda>r. filePath r \<noteq> fp) (files db),
        sessions := filter (\<lambda>r. path r \<noteq> fp) (sessions db)\<rparr>"

text \<open>\<^verbatim>\<open>cleanupDeletedFiles\<close>: the tracked paths are read first, then each one that is
  not among the existing files is deleted and counted.\<close>

definition cleanupDeletedFiles :: "Database \<Rightarrow> Provider \<Rightarrow> string list \<Rightarrow> Database \<times> nat" where
  "cleanupDeletedFiles db p existingFiles =
     foldl (\<lambda>(d, deletedCount) fp.
              if fp \<notin> set existingFiles then (deleteFileAndSession d fp, deletedCount + 1)
              else (d, deletedCount))
           (db, 0) (getTrackedFiles db p)"

text \<open>A stable sort by a comparator: \<open>before a b\<close> says that \<open>a\<close> has to come strictly
  before \<open>b\<close>; elements that the comparator does not separate keep their order.\<close>

fun insertBy :: "('a \<Rightarrow> 'a \<Rightarrow> bool) \<Rightarrow> 'a \<Rightarrow> 'a list \<Rightarrow> 'a list" where
  "insertBy before x [] = [x]"
| "insertBy before x (y # ys) =
     (if before x y then x # y # ys else y # insertBy before x ys)"

definition sortBy :: "('a \<Rightarrow> 'a \<Rightarrow> bool) \<Rightarrow> 'a list \<Rightarrow> 'a list" where
  "sortBy before xs = foldl (\<lambda>acc x. insertBy before x acc) [] xs"

text \<open>
  The order of SQLite on the values of the \<^verbatim>\<open>last_message\<close> column, which is of type
  TEXT: NULL comes before every text, and text is compared byte by byte.  Values of other
  kinds do not occur in the column and are not ordered here.
\<close>

fun strLess :: "string \<Rightarrow> string \<Rightarrow> bool" where
  "strLess [] [] = False"
| "strLess [] (y # ys) = True"
| "strLess (x # xs) [] = False"
| "strLess (x # xs) (y # ys) =
     ((of_char x :: nat) < of_char y \<or> (x = y \<and> strLess xs ys))"

fun sqlLess :: "jsv \<Rightarrow> jsv \<Rightarrow> bool" where
  "sqlLess JNull (JStr s) = True"
| "sqlLess (JStr a) (JStr b) = strLess a b"
| "sqlLess a b = False"

text \<open>\<^verbatim>\<open>SELECT * FROM sessions WHERE provider = ? ORDER BY last_message DESC\<close>.
  SQL leaves the order of rows with equal keys open; here they keep their table order.\<close>

definition dbGetSessions :: "Database \<Rightarrow> Provider \<Rightarrow> SessionStats list" where
  "dbGetSessions db p =
     sortBy (\<lambda>a b. sqlLess (lastMessage b) (lastMessage a))
       (filter (\<lambda>r. provider r = p) (sessions db))"

section \<open>The sync orchestrator\<close>

text \<open>
  The file system as \<^verbatim>\<open>syncProvider\<close> sees it: for each provider \<open>None\<close> when its
  base directory does not exist, else the files \<^verbatim>\<open>findSessionFiles\<close> returns, each
  with the result of \<^verbatim>\<open>fs.statSync\<close> (modification time and size; \<open>None\<close> when it
  throws) and what reading the file gives.
\<close>

record FileEntry =
  entryPath :: string
  entryStat :: "(int \<times> int) option"
  entryContent :: content

type_synonym fileSystem = "Provider \<Rightarrow> FileEntry list option"

record SyncResult =
  added :: nat
  updated :: nat
  deleted :: nat

text \<open>The \<^verbatim>\<open>switch\<close> over the provider\<close>

definition parseSession :: "host \<Rightarrow> Provider \<Rightarrow> string \<Rightarrow> content \<Rightarrow> SessionStats" where
  "parseSession h p fp c =
     (case p of
        claude \<Rightarrow> parseClaudeSession h fp c
      | codex \<Rightarrow> parseCodexSession fp c
      | gemini \<Rightarrow> parseGeminiSession fp c)"

text \<open>The body of the loop over the files, on the store and the two counters.  One
  reading \<open>now\<close> of the clock stands for the \<^verbatim>\<open>Date.now()\<close> of every upsert of a
  pass; it only reaches the \<^verbatim>\<open>last_parsed\<close> column, which is written and never read.\<close>

definition processFile ::
  "host \<Rightarrow> int \<Rightarrow> Provider \<Rightarrow> Database \<times> nat \<times> nat \<Rightarrow> FileEntry \<Rightarrow> Database \<times> nat \<times> nat" where
  "processFile h now p acc e =
     (case acc of (db, nAdded, nUpdated) \<Rightarrow>
        (case entryStat e of
           None \<Rightarrow> (db, nAdded, nUpdated)
         | Some (m, sz) \<Rightarrow>
             if needsUpdate db (entryPath e) m sz then
               (let session = parseSession h p (entryPath e) (entryContent e) in
                if messages session > 0 then
                  (let isNew = (getFileRecord db (entryPath e) = None);
                       db1 = upsertSession h db session;
                       db2 = upsertFileRecord db1 (entryPath e) p m sz now
                   in if isNew then (db2, nAdded + 1, nUpdated) else (db2, nAdded, nUpdated + 1))
                else (db, nAdded, nUpdated))
             else (db, nAdded, nUpdated)))"

definition syncProvider ::
  "host \<Rightarrow> int \<Rightarrow> fileSystem \<Rightarrow> Provider \<Rightarrow> Database \<Rightarrow> Database \<times> SyncResult" where
  "syncProvider h now fs p db =
     (case fs p of
        None \<Rightarrow> (db, \<lparr>added = 0, updated = 0, deleted = 0\<rparr>)
      | Some entries \<Rightarrow>
          (case foldl (processFile h now p) (db, 0, 0) entries of
             (db1, nAdded, nUpdated) \<Rightarrow>
               (case cleanupDeletedFiles db1 p (map entryPath entries) of
                  (db2, nDeleted) \<Rightarrow>
                    (db2, \<lparr>added = nAdded, updated = nUpdated, deleted = nDeleted\<rparr>))))"

text \<open>
  The state of a \<^verbatim>\<open>SessionParser\<close>: the in-process cache (keyed by
  \<^verbatim>\<open>sessions-<provider>\<close>), the store, and the time of the last \<^verbatim>\<open>syncAll\<close>.
\<close>

record ParserState =
  cache :: "Provider \<Rightarrow> SessionStats list option"
  db :: Database
  lastSyncTime :: int

definition syncInterval :: int where
  "syncInterval = 5000"

text \<open>\<^verbatim>\<open>syncAll\<close>.  The three passes are started together; they work on the rows of
  their own provider's paths, and are modelled one after the other.\<close>

definition syncAll :: "host \<Rightarrow> int \<Rightarrow> fileSystem \<Rightarrow> ParserState \<Rightarrow> ParserState" where
  "syncAll h now fs st =
     (let d1 = fst (syncProvider h now fs claude (db st));
          d2 = fst (syncProvider h now fs codex d1);
          d3 = fst (syncProvider h now fs gemini d2)
      in st\<lparr>db := d3, lastSyncTime := now\<rparr>)"

text \<open>\<^verbatim>\<open>getSessions(provider)\<close> of the parser: the result and the state after it.\<close>

definition getSessions ::
  "host \<Rightarrow> int \<Rightarrow> fileSystem \<Rightarrow> ParserState \<Rightarrow> Provider \<Rightarrow> SessionStats list \<times> ParserState" where
  "getSessions h now fs st p =
     (case (cache st p, now - lastSyncTime st < syncInterval) of
        (Some snapshot, True) \<Rightarrow> (snapshot, st)
      | _ \<Rightarrow>
          if fs p = None then ([], st)
          else (let d = fst (syncProvider h now fs p (db st));
                    found = dbGetSessions d p
                in (found, st\<lparr>cache := (cache st)(p \<mapsto> found), db := d\<rparr>)))"

section \<open>The aggregator: recent sessions\<close>

text \<open>The loop of \<^verbatim>\<open>getAllUsage\<close> over the providers, for the
  \<^verbatim>\<open>recentSessions\<close> component: \<^verbatim>\<open>push(...sessions.slice(0, 10))\<close>.\<close>

definition recentPool :: "Database \<Rightarrow> SessionStats list" where
  "recentPool d = foldl (\<lambda>acc p. acc @ take 10 (dbGetSessions d p)) [] [claude, codex, gemini]"

text \<open>\<^verbatim>\<open>a.lastMessage ? new Date(a.lastMessage).getTime() : 0\<close>\<close>

definition recentDate :: "host \<Rightarrow> SessionStats \<Rightarrow> rat" where
  "recentDate h a = (if truthy (lastMessage a) then getTime h (lastMessage a) else 0)"

text \<open>The comparator returns \<^verbatim>\<open>dateB - dateA\<close>: \<open>a\<close> comes before \<open>b\<close> when that
  is negative.  \<^verbatim>\<open>Array.prototype.sort\<close> is stable.\<close>

definition recentSessions :: "host \<Rightarrow> Database \<Rightarrow> SessionStats list" where
  "recentSessions h d =
     take 20 (sortBy (\<lambda>a b. recentDate h b - recentDate h a < 0) (recentPool d))"

text \<open>\<^verbatim>\<open>getAllUsage\<close>, restricted to the state it leaves and to \<^verbatim>\<open>recentSessions\<close>\<close>

definition getAllUsage ::
  "host \<Rightarrow> int \<Rightarrow> fileSystem \<Rightarrow> ParserState \<Rightarrow> ParserState \<times> SessionStats list" where
  "getAllUsage h now fs st =
     (let st1 = syncAll h now fs st in (st1, recentSessions h (db st1)))"

section \<open>Notions used in the statements\<close>

subsection \<open>The last cumulative token count of a Codex log\<close>

text \<open>The running total a line carries, when the line is a parsed \<^verbatim>\<open>token_count\<close>
  event with a \<^verbatim>\<open>total_token_usage\<close>.\<close>

fun observedUsage :: "line \<Rightarrow> jsv option" where
  "observedUsage (Event ev) = codexTokenUsage ev"
| "observedUsage l = None"

text \<open>The running total of the last such line of a file.\<close>

fun lastUsage :: "line list \<Rightarrow> jsv option" where
  "lastUsage [] = None"
| "lastUsage (l # ls) = (case lastUsage ls of Some u \<Rightarrow> Some u | None \<Rightarrow> observedUsage l)"

text \<open>The value a running total carries under a key (\<^verbatim>\<open>usage[k] || 0\<close>), and 0 when
  the file has no running total at all.\<close>

definition carried :: "string \<Rightarrow> jsv option \<Rightarrow> jsnumber" where
  "carried k u = (case u of None \<Rightarrow> Num 0 | Some usage \<Rightarrow> orZero (getProp usage k))"

text \<open>A \<^verbatim>\<open>token_count\<close> line with the running totals \<open>i\<close> and \<open>oo\<close>.\<close>

definition tokenCount :: "rat \<Rightarrow> rat \<Rightarrow> line" where
  "tokenCount i oo =
     Event (JObj [(''type'', JStr ''event_msg''),
                  (''payload'', JObj [(''type'', JStr ''token_count''),
                     (''info'', JObj [(''total_token_usage'',
                        JObj [(''input_tokens'', JNum i), (''output_tokens'', JNum oo)])])])])"

subsection \<open>The usage that the lines of a Claude log contribute\<close>

text \<open>An event whose line is processed to its end: neither reading \<^verbatim>\<open>event.type\<close>
  nor the tool-use test throws.\<close>

definition claudeCompletes :: "jsv \<Rightarrow> bool" where
  "claudeCompletes ev = (\<not> nullish ev \<and> claudeToolUse ev \<noteq> None)"

text \<open>The events of the lines of a file that are parsed and processed to their end.\<close>

fun completedEvents :: "line list \<Rightarrow> jsv list" where
  "completedEvents [] = []"
| "completedEvents (Event ev # ls) =
     (if claudeCompletes ev then ev # completedEvents ls else completedEvents ls)"
| "completedEvents (l # ls) = completedEvents ls"

text \<open>A value that \<^verbatim>\<open>if (v) acc += v\<close> handles as a number: a number, a boolean, or
  something falsy.\<close>

definition numberLike :: "jsv \<Rightarrow> bool" where
  "numberLike v = (case v of JStr s \<Rightarrow> s = [] | JArr xs \<Rightarrow> False | JObj kvs \<Rightarrow> False | _ \<Rightarrow> True)"

text \<open>What such a value adds.\<close>

definition usageCount :: "jsv \<Rightarrow> rat" where
  "usageCount v = (case v of JNum n \<Rightarrow> n | JBool b \<Rightarrow> (if b then 1 else 0) | _ \<Rightarrow> 0)"

text \<open>A counter of the usage object of an event.\<close>

definition usageField :: "string \<Rightarrow> jsv \<Rightarrow> jsv" where
  "usageField k ev = getProp (claudeUsage ev) k"

text \<open>A usage-bearing line, and a runtime for the examples: its clock reads a number as
  epoch milliseconds and knows the ISO dates the examples use.\<close>

definition usageLine :: "rat \<Rightarrow> rat \<Rightarrow> line" where
  "usageLine i oo =
     Event (JObj [(''type'', JStr ''assistant''),
                  (''message'', JObj [(''role'', JStr ''assistant''),
                     (''usage'', JObj [(''input_tokens'', JNum i), (''output_tokens'', JNum oo)])])])"

definition twoDigits :: "nat \<Rightarrow> string" where
  "twoDigits n = [''0123456789'' ! (n div 10 mod 10), ''0123456789'' ! (n mod 10)]"

text \<open>Midnight (UTC) of day \<open>k\<close> of January 2024, in ISO 8601.\<close>

definition januaryDay :: "nat \<Rightarrow> string" where
  "januaryDay k = ''2024-01-'' @ twoDigits k @ ''T00:00:00.000Z''"

definition exampleClock :: "jsv \<Rightarrow> rat" where
  "exampleClock v =
     (case v of
        JNum n \<Rightarrow> n
      | JStr s \<Rightarrow>
          (case map_of
                  ((''2024-01-01T00:00:05.000Z'', 1704067205000)
                   # map (\<lambda>k. (januaryDay k, 1704067200000 + 86400000 * (of_nat k - 1))) [1..<32])
                  s of
             Some t \<Rightarrow> t
           | None \<Rightarrow> 0)
      | _ \<Rightarrow> 0)"

text \<open>The text of a whole number below 100, which is all the examples store.\<close>

definition exampleSqlText :: "rat \<Rightarrow> string" where
  "exampleSqlText n =
     (let k = nat \<lfloor>n\<rfloor> in
      if k < 10 then [''0123456789'' ! k] else twoDigits k)"

definition exampleHost :: host where
  "exampleHost = \<lparr>homedir = ''/home/u'', getTime = exampleClock, sqlText = exampleSqlText\<rparr>"

definition exampleClaudeLog :: "line list" where
  "exampleClaudeLog = [usageLine 10 5, Malformed, usageLine 20 8, Blank, usageLine 5 2]"




subsection \<open>Example stores and files\<close>

text \<open>A store that tracks one Codex file, last seen with modification time 1700000000000
  and 321 bytes, together with the session parsed from it.\<close>

definition trackedPath :: string where
  "trackedPath = ''/home/u/.codex/sessions/s1.jsonl''"

definition exampleDb :: Database where
  "exampleDb =
     \<lparr>files = [\<lparr>filePath = trackedPath, fileProvider = codex, mtime = 1700000000000,
                 fileSize = 321, lastParsed = 1700000000500\<rparr>],
      sessions = [boundRow exampleHost (parseCodexSession trackedPath
                    (Readable [tokenCount 100 50, tokenCount 250 120, tokenCount 400 200] None))]\<rparr>"

text \<open>A log with no parsable line: it parses to a record with no message.\<close>

definition headerOnlyLog :: content where
  "headerOnlyLog = Readable [Blank, Malformed, Blank] None"

subsection \<open>Notions for the sync loop\<close>

text \<open>The store after the loop body has processed one file.\<close>

definition dbAfter :: "host \<Rightarrow> int \<Rightarrow> Provider \<Rightarrow> Database \<Rightarrow> FileEntry \<Rightarrow> Database" where
  "dbAfter h now p d e = fst (processFile h now p (d, 0, 0) e)"

text \<open>A file the loop body passes over in a given store: it cannot be read for its
  metadata, or its tracking row is up to date, or it parses to a record with no message.\<close>

definition settled :: "host \<Rightarrow> Provider \<Rightarrow> Database \<Rightarrow> FileEntry \<Rightarrow> bool" where
  "settled h p d e =
     (case entryStat e of
        None \<Rightarrow> True
      | Some (m, sz) \<Rightarrow>
          \<not> needsUpdate d (entryPath e) m sz
          \<or> messages (parseSession h p (entryPath e) (entryContent e)) = 0)"

text \<open>A file system for the examples: the Codex directory holds a session with two running
  totals and a file without a parsable line; the Claude directory holds one session; there
  is no Gemini directory.  The file tracked by \<open>exampleDb\<close> is gone.\<close>

definition exampleFs :: fileSystem where
  "exampleFs p =
     (case p of
        codex \<Rightarrow>
          Some [\<lparr>entryPath = ''/home/u/.codex/sessions/s2.jsonl'',
                 entryStat = Some (1700000100000, 640),
                 entryContent = Readable [tokenCount 100 50, tokenCount 250 120] None\<rparr>,
                \<lparr>entryPath = ''/home/u/.codex/sessions/s3.jsonl'',
                 entryStat = Some (1700000200000, 2),
                 entryContent = headerOnlyLog\<rparr>]
      | claude \<Rightarrow>
          Some [\<lparr>entryPath = ''/home/u/.claude/projects/-home-u-work-app/s1.jsonl'',
                 entryStat = Some (1700000300000, 900),
                 entryContent = Readable exampleClaudeLog None\<rparr>]
      | gemini \<Rightarrow> None)"

subsection \<open>Timestamped logs\<close>

text \<open>Two events five seconds apart, as a Codex log writes them.\<close>

definition timedLog :: "line list" where
  "timedLog =
     [Event (JObj [(''timestamp'', JStr ''2024-01-01T00:00:00.000Z''),
                   (''type'', JStr ''event_msg''),
                   (''payload'', JObj [(''type'', JStr ''user_message'')])]),
      Event (JObj [(''timestamp'', JStr ''2024-01-01T00:00:05.000Z''),
                   (''type'', JStr ''event_msg''),
                   (''payload'', JObj [(''type'', JStr ''agent_message'')])])]"

subsection \<open>Cost\<close>





text \<open>A Claude log whose only usage is a negative input count.\<close>

definition negativeLog :: "line list" where
  "negativeLog =
     [Event (JObj [(''type'', JStr ''assistant''),
                   (''message'', JObj [(''usage'', JObj [(''input_tokens'', JNum (- 5))])])])]"

subsection \<open>Whole-file arrays\<close>

text \<open>The number of elements of an array whose \<^verbatim>\<open>role\<close> field is \<open>r\<close>.\<close>

definition roleCount :: "string \<Rightarrow> jsv list \<Rightarrow> nat" where
  "roleCount r msgs = length (filter (\<lambda>msg. \<not> nullish msg \<and> getProp msg ''role'' = JStr r) msgs)"

text \<open>A Codex session stored as one JSON array, with a null element in front.\<close>

definition arrayWithNull :: "jsv list" where
  "arrayWithNull =
     [JNull, JObj [(''role'', JStr ''user'')], JObj [(''role'', JStr ''assistant'')]]"

text \<open>The timestamp of an event (\<^verbatim>\<open>event.timestamp || event.ts\<close>), and the timestamps
  of the lines of a Claude log that are processed to their end, in file order.\<close>

definition eventTimestamp :: "jsv \<Rightarrow> jsv" where
  "eventTimestamp ev = orJs (getProp ev ''timestamp'') (getProp ev ''ts'')"

definition claudeTimestamps :: "line list \<Rightarrow> jsv list" where
  "claudeTimestamps ls = filter truthy (map eventTimestamp (completedEvents ls))"

text \<open>Two timestamped turns five seconds apart, as a Claude log and as a Gemini log
  write them.\<close>

definition claudeTimedLog :: "line list" where
  "claudeTimedLog =
     [Event (JObj [(''type'', JStr ''user''), (''timestamp'', JStr ''2024-01-01T00:00:00.000Z'')]),
      Event (JObj [(''type'', JStr ''assistant''),
                   (''timestamp'', JStr ''2024-01-01T00:00:05.000Z'')])]"

definition geminiTimedLog :: "line list" where
  "geminiTimedLog =
     [Event (JObj [(''role'', JStr ''user''), (''timestamp'', JStr ''2024-01-01T00:00:00.000Z'')]),
      Event (JObj [(''role'', JStr ''model''), (''timestamp'', JStr ''2024-01-01T00:00:05.000Z'')])]"

subsection \<open>The read path as the specification words it\<close>

text \<open>
  \<^verbatim>\<open>getSessions\<close> as the specification describes it: the snapshot when a sync
  happened within the debounce window and a snapshot exists; otherwise a fresh
  \<^verbatim>\<open>syncProvider\<close>, a read of the store, and the snapshot replaced by what was read.
\<close>

definition getSessionsSpec ::
  "host \<Rightarrow> int \<Rightarrow> fileSystem \<Rightarrow> ParserState \<Rightarrow> Provider \<Rightarrow> SessionStats list \<times> ParserState" where
  "getSessionsSpec h now fs st p =
     (case (cache st p, now - lastSyncTime st < syncInterval) of
        (Some snapshot, True) \<Rightarrow> (snapshot, st)
      | _ \<Rightarrow>
          (let d = fst (syncProvider h now fs p (db st));
               found = dbGetSessions d p
           in (found, st\<lparr>cache := (cache st)(p \<mapsto> found), db := d\<rparr>)))"

text \<open>A parser that has never synced and holds no snapshot, on the example store; and a
  machine on which none of the three session directories exists.\<close>

definition coldState :: ParserState where
  "coldState = \<lparr>cache = (\<lambda>p. None), db = exampleDb, lastSyncTime = 0\<rparr>"

definition noDirectories :: fileSystem where
  "noDirectories p = None"

text \<open>A parser that holds an (empty) snapshot for Codex, taken at its last
  \<^verbatim>\<open>syncAll\<close>.\<close>

definition warmState :: ParserState where
  "warmState = \<lparr>cache = (\<lambda>p. if p = codex then Some [] else None), db = exampleDb,
                 lastSyncTime = 1700000400000\<rparr>"

subsection \<open>The pool of recent sessions\<close>

text \<open>The first ten sessions of each provider's list, in the order of the providers.\<close>

definition pooled :: "Database \<Rightarrow> SessionStats list" where
  "pooled d =
     take 10 (dbGetSessions d claude) @ take 10 (dbGetSessions d codex)
       @ take 10 (dbGetSessions d gemini)"

text \<open>A stored session of provider \<open>p\<close> with one message, last active at \<open>ts\<close>.\<close>

definition datedSession :: "Provider \<Rightarrow> string \<Rightarrow> jsv \<Rightarrow> SessionStats" where
  "datedSession p fp ts =
     boundRow exampleHost ((codexInit fp)\<lparr>provider := p, messages := 1, firstMessage := ts, lastMessage := ts\<rparr>)"

text \<open>The Claude session of day \<open>k\<close> of January 2024.\<close>

definition claudeDay :: "nat \<Rightarrow> SessionStats" where
  "claudeDay k =
     datedSession claude
       (''/home/u/.claude/projects/-home-u-work-app/day'' @ twoDigits k @ ''.jsonl'')
       (JStr (januaryDay k))"

text \<open>A parser whose store holds, in this order of insertion, twelve Claude sessions of
  1 to 12 January 2024, an undated Codex session, a Codex session of 13 January and a
  Gemini session of 14 January.\<close>

definition recentState :: ParserState where
  "recentState =
     \<lparr>cache = (\<lambda>p. None),
      db = \<lparr>files = [],
            sessions =
              map claudeDay [1..<13]
              @ [datedSession codex ''/home/u/.codex/sessions/b.jsonl'' JNull,
                 datedSession codex ''/home/u/.codex/sessions/d.jsonl'' (JStr (januaryDay 13)),
                 datedSession gemini ''/home/u/.gemini/tmp/c.json'' (JStr (januaryDay 14))]\<rparr>,
      lastSyncTime = 0\<rparr>"

text \<open>Two Codex records whose last timestamp is a number, 9 and 10.\<close>

definition numberedSession :: "string \<Rightarrow> rat \<Rightarrow> SessionStats" where
  "numberedSession fp n =
     (codexInit fp)\<lparr>messages := 1, firstMessage := JNum n, lastMessage := JNum n\<rparr>"

section \<open>Cumulative token counts (Provider B)\<close>

lemma codexTokenUsage_nullish: "nullish ev \<Longrightarrow> codexTokenUsage ev = None"
  by (auto simp: nullish_def codexTokenUsage_def)

lemma codexTokenUsage_meta: "codexMeta ev st = None \<Longrightarrow> codexTokenUsage ev = None"
  by (auto simp: codexMeta_def codexTokenUsage_def Let_def split: if_splits)

lemma codexEvent_totals:
  "lastTotalInput (codexEvent s ev) =
     (case codexTokenUsage ev of
        Some u \<Rightarrow> orZero (getProp u ''input_tokens'') | None \<Rightarrow> lastTotalInput s)"
  "lastTotalOutput (codexEvent s ev) =
     (case codexTokenUsage ev of
        Some u \<Rightarrow> orZero (getProp u ''output_tokens'') | None \<Rightarrow> lastTotalOutput s)"
  by (auto simp: codexEvent_def Let_def codexTokenUsage_nullish codexTokenUsage_meta
      split: option.splits)

lemma codexLine_totals:
  "lastTotalInput (codexLine s l) =
     (case observedUsage l of
        Some u \<Rightarrow> orZero (getProp u ''input_tokens'') | None \<Rightarrow> lastTotalInput s)"
  "lastTotalOutput (codexLine s l) =
     (case observedUsage l of
        Some u \<Rightarrow> orZero (getProp u ''output_tokens'') | None \<Rightarrow> lastTotalOutput s)"
  by (cases l; simp add: codexEvent_totals)+

lemma codexLoop_totals:
  "lastTotalInput (codexLoop s ls) =
     (case lastUsage ls of
        Some u \<Rightarrow> orZero (getProp u ''input_tokens'') | None \<Rightarrow> lastTotalInput s)"
  "lastTotalOutput (codexLoop s ls) =
     (case lastUsage ls of
        Some u \<Rightarrow> orZero (getProp u ''output_tokens'') | None \<Rightarrow> lastTotalOutput s)"
  unfolding codexLoop_def
  by (induction ls arbitrary: s; simp add: codexLine_totals split: option.splits)+

lemma costFromTokens_tokens:
  "inputTokens (costFromTokens st) = inputTokens st"
  "outputTokens (costFromTokens st) = outputTokens st"
  by (auto simp: costFromTokens_def split: option.splits bool.splits cost_result.splits)

text \<open>
  Claim C1.  For a Codex file whose path ends in \<^verbatim>\<open>.jsonl\<close>, whatever its lines are,
  the input and output token counts of the returned record are the two values carried by
  the last \<^verbatim>\<open>token_count\<close> event of the file that has a running total (a missing or
  falsy value counting as 0, and both counts being 0 when the file has no such event).
  Earlier running totals do not contribute: the counts are not a sum.
\<close>

theorem codex_tokens_last_wins:
  assumes "endsWith fp ''.jsonl''"
  shows "inputTokens (parseCodexSession fp (Readable ls whole))
           = carried ''input_tokens'' (lastUsage ls)
       \<and> outputTokens (parseCodexSession fp (Readable ls whole))
           = carried ''output_tokens'' (lastUsage ls)"
  using assms
  by (simp add: parseCodexSession_def Let_def costFromTokens_tokens codexLoop_totals
      carried_def split: option.splits)

text \<open>The file of the specification: running totals 100/50, 250/120, 400/200.\<close>

theorem codex_tokens_last_wins_witness:
  "endsWith ''/home/u/.codex/sessions/s1.jsonl'' ''.jsonl''
   \<and> inputTokens (parseCodexSession ''/home/u/.codex/sessions/s1.jsonl''
        (Readable [tokenCount 100 50, tokenCount 250 120, tokenCount 400 200] None)) = Num 400
   \<and> outputTokens (parseCodexSession ''/home/u/.codex/sessions/s1.jsonl''
        (Readable [tokenCount 100 50, tokenCount 250 120, tokenCount 400 200] None)) = Num 200"
proof -
  have e: "endsWith ''/home/u/.codex/sessions/s1.jsonl'' ''.jsonl''"
    by (simp add: endsWith_def)
  have u: "lastUsage [tokenCount 100 50, tokenCount 250 120, tokenCount 400 200]
      = Some (JObj [(''input_tokens'', JNum 400), (''output_tokens'', JNum 200)])"
    by (simp add: tokenCount_def codexTokenUsage_def optProp_def nullish_def)
  note t = codex_tokens_last_wins [OF e,
      of "[tokenCount 100 50, tokenCount 250 120, tokenCount 400 200]" None, unfolded u]
  show ?thesis
    using e t by (simp add: carried_def orZero_def)
qed

section \<open>Additive token counts (Provider A)\<close>

lemma addIfTruthy_numberLike:
  "numberLike v \<Longrightarrow> addIfTruthy (Num a) v = Num (a + usageCount v)"
  by (cases v) (auto simp: numberLike_def addIfTruthy_def usageCount_def)

lemma claude_steps_tokens [simp]:
  "inputTokens (claudeRoles ev st) = inputTokens st"
  "outputTokens (claudeRoles ev st) = outputTokens st"
  "inputTokens (claudeCost ev st) = inputTokens st"
  "outputTokens (claudeCost ev st) = outputTokens st"
  "inputTokens (trackTimestamp ts st) = inputTokens st"
  "outputTokens (trackTimestamp ts st) = outputTokens st"
  "inputTokens (claudeModel ev st) = inputTokens st"
  "outputTokens (claudeModel ev st) = outputTokens st"
  by (simp_all add: claudeRoles_def claudeCost_def trackTimestamp_def claudeModel_def Let_def)

lemma claudeTokens_tokens:
  "inputTokens (claudeTokens ev st) = addIfTruthy (inputTokens st) (usageField ''input_tokens'' ev)"
  "outputTokens (claudeTokens ev st) = addIfTruthy (outputTokens st) (usageField ''output_tokens'' ev)"
  by (simp_all add: claudeTokens_def usageField_def Let_def)

lemma claudeEvent_tokens:
  "inputTokens (claudeEvent st ev) =
     (if claudeCompletes ev then addIfTruthy (inputTokens st) (usageField ''input_tokens'' ev)
      else inputTokens st)"
  "outputTokens (claudeEvent st ev) =
     (if claudeCompletes ev then addIfTruthy (outputTokens st) (usageField ''output_tokens'' ev)
      else outputTokens st)"
  by (auto simp: claudeEvent_def claudeCompletes_def Let_def claudeTokens_tokens split: option.splits)

lemma claudeLoop_input:
  assumes "\<forall>ev \<in> set (completedEvents ls). numberLike (usageField ''input_tokens'' ev)"
    and "inputTokens st = Num a"
  shows "inputTokens (claudeLoop st ls)
           = Num (a + sum_list (map (\<lambda>ev. usageCount (usageField ''input_tokens'' ev)) (completedEvents ls)))"
  using assms unfolding claudeLoop_def
proof (induction ls arbitrary: st a)
  case Nil
  then show ?case by simp
next
  case (Cons l ls)
  show ?case
  proof (cases l)
    case (Event ev)
    show ?thesis
    proof (cases "claudeCompletes ev")
      case True
      with Cons.prems Event have n: "numberLike (usageField ''input_tokens'' ev)" by simp
      have s: "inputTokens (claudeLine st l) = Num (a + usageCount (usageField ''input_tokens'' ev))"
        using Event True Cons.prems(2) by (simp add: claudeEvent_tokens addIfTruthy_numberLike [OF n])
      from Cons.IH [OF _ s] Cons.prems(1) Event True show ?thesis
        by (simp add: add.assoc)
    next
      case False
      have s: "inputTokens (claudeLine st l) = Num a"
        using Event False Cons.prems(2) by (simp add: claudeEvent_tokens)
      from Cons.IH [OF _ s] Cons.prems(1) Event False show ?thesis by simp
    qed
  qed (use Cons in simp_all)
qed

lemma claudeLoop_output:
  assumes "\<forall>ev \<in> set (completedEvents ls). numberLike (usageField ''output_tokens'' ev)"
    and "outputTokens st = Num a"
  shows "outputTokens (claudeLoop st ls)
           = Num (a + sum_list (map (\<lambda>ev. usageCount (usageField ''output_tokens'' ev)) (completedEvents ls)))"
  using assms unfolding claudeLoop_def
proof (induction ls arbitrary: st a)
  case Nil
  then show ?case by simp
next
  case (Cons l ls)
  show ?case
  proof (cases l)
    case (Event ev)
    show ?thesis
    proof (cases "claudeCompletes ev")
      case True
      with Cons.prems Event have n: "numberLike (usageField ''output_tokens'' ev)" by simp
      have s: "outputTokens (claudeLine st l) = Num (a + usageCount (usageField ''output_tokens'' ev))"
        using Event True Cons.prems(2) by (simp add: claudeEvent_tokens addIfTruthy_numberLike [OF n])
      from Cons.IH [OF _ s] Cons.prems(1) Event True show ?thesis
        by (simp add: add.assoc)
    next
      case False
      have s: "outputTokens (claudeLine st l) = Num a"
        using Event False Cons.prems(2) by (simp add: claudeEvent_tokens)
      from Cons.IH [OF _ s] Cons.prems(1) Event False show ?thesis by simp
    qed
  qed (use Cons in simp_all)
qed

lemma claudeDuration_tokens [simp]:
  "inputTokens (claudeDuration h st) = inputTokens st"
  "outputTokens (claudeDuration h st) = outputTokens st"
  by (simp_all add: claudeDuration_def)

lemma claudeFinish_tokens:
  "inputTokens (claudeFinish h st) = inputTokens st"
  "outputTokens (claudeFinish h st) = outputTokens st"
  by (auto simp: claudeFinish_def split: option.splits bool.splits cost_result.splits)

text \<open>
  For a Claude file, the input (output) token count of the returned record is the sum of
  the \<^verbatim>\<open>input_tokens\<close> (\<^verbatim>\<open>output_tokens\<close>) usage fields over the lines that are
  processed to their end, provided these fields hold numbers where they are present.
  Blank lines and lines that are not JSON contribute nothing, and neither does a parsed
  line whose processing throws.
\<close>

lemma claude_tokens_additive:
  assumes "\<forall>ev \<in> set (completedEvents ls).
             numberLike (usageField ''input_tokens'' ev) \<and> numberLike (usageField ''output_tokens'' ev)"
  shows "inputTokens (parseClaudeSession h fp (Readable ls whole))
           = Num (sum_list (map (\<lambda>ev. usageCount (usageField ''input_tokens'' ev)) (completedEvents ls)))
       \<and> outputTokens (parseClaudeSession h fp (Readable ls whole))
           = Num (sum_list (map (\<lambda>ev. usageCount (usageField ''output_tokens'' ev)) (completedEvents ls)))"
proof -
  have i: "inputTokens (claudeInit h fp) = Num 0" and o: "outputTokens (claudeInit h fp) = Num 0"
    by (simp_all add: claudeInit_def)
  from assms have ai: "\<forall>ev \<in> set (completedEvents ls). numberLike (usageField ''input_tokens'' ev)"
    and ao: "\<forall>ev \<in> set (completedEvents ls). numberLike (usageField ''output_tokens'' ev)"
    by simp_all
  show ?thesis
    by (simp add: parseClaudeSession_def claudeFinish_tokens claudeLoop_input [OF ai i]
        claudeLoop_output [OF ao o])
qed

text \<open>The file of the specification, usage 10/5, 20/8, 5/2, here with a line that is
  not JSON and a blank line in between: 35 and 15.\<close>

lemma claude_tokens_additive_example:
  "list_all (\<lambda>ev. numberLike (usageField ''input_tokens'' ev)
                  \<and> numberLike (usageField ''output_tokens'' ev))
      (completedEvents exampleClaudeLog)
   \<and> inputTokens (parseClaudeSession exampleHost
        ''/home/u/.claude/projects/-home-u-work-app/s1.jsonl'' (Readable exampleClaudeLog None)) = Num 35
   \<and> outputTokens (parseClaudeSession exampleHost
        ''/home/u/.claude/projects/-home-u-work-app/s1.jsonl'' (Readable exampleClaudeLog None)) = Num 15"
proof -
  have c: "completedEvents exampleClaudeLog =
      [JObj [(''type'', JStr ''assistant''),
             (''message'', JObj [(''role'', JStr ''assistant''),
                (''usage'', JObj [(''input_tokens'', JNum 10), (''output_tokens'', JNum 5)])])],
       JObj [(''type'', JStr ''assistant''),
             (''message'', JObj [(''role'', JStr ''assistant''),
                (''usage'', JObj [(''input_tokens'', JNum 20), (''output_tokens'', JNum 8)])])],
       JObj [(''type'', JStr ''assistant''),
             (''message'', JObj [(''role'', JStr ''assistant''),
                (''usage'', JObj [(''input_tokens'', JNum 5), (''output_tokens'', JNum 2)])])]]"
    by (simp add: exampleClaudeLog_def usageLine_def claudeCompletes_def claudeToolUse_def
        nullish_def optProp_def)
  have n: "\<forall>ev \<in> set (completedEvents exampleClaudeLog).
      numberLike (usageField ''input_tokens'' ev) \<and> numberLike (usageField ''output_tokens'' ev)"
    unfolding c
    by (simp add: usageField_def claudeUsage_def orJs_def optProp_def nullish_def numberLike_def)
  note t = claude_tokens_additive [OF n, of exampleHost
      "''/home/u/.claude/projects/-home-u-work-app/s1.jsonl''" None, unfolded c]
  show ?thesis
    using n t
    by (simp add: list_all_iff usageField_def claudeUsage_def orJs_def optProp_def nullish_def
        usageCount_def)
qed


section \<open>Cost computed from tokens (Provider A)\<close>

lemma claudeEvent_cost:
  "costUsd (claudeEvent st ev) =
     (if claudeCompletes ev then addIfTruthy (costUsd st) (getProp ev ''costUsd'') else costUsd st)"
  by (auto simp: claudeEvent_def claudeCompletes_def Let_def claudeRoles_def claudeTokens_def
      claudeCost_def trackTimestamp_def claudeModel_def split: option.splits)

text \<open>The cost after the loop is the sum of the embedded cost fields.\<close>

lemma claudeLoop_cost:
  assumes "\<forall>ev \<in> set (completedEvents ls). numberLike (getProp ev ''costUsd'')"
    and "costUsd st = Num a"
  shows "costUsd (claudeLoop st ls)
         = Num (a + sum_list (map (\<lambda>ev. usageCount (getProp ev ''costUsd'')) (completedEvents ls)))"
  using assms unfolding claudeLoop_def
proof (induction ls arbitrary: st a)
  case Nil
  then show ?case by simp
next
  case (Cons l ls)
  show ?case
  proof (cases l)
    case (Event ev)
    show ?thesis
    proof (cases "claudeCompletes ev")
      case True
      with Cons.prems Event have n: "numberLike (getProp ev ''costUsd'')" by simp
      have s: "costUsd (claudeLine st l) = Num (a + usageCount (getProp ev ''costUsd''))"
        using Event True Cons.prems(2) by (simp add: claudeEvent_cost addIfTruthy_numberLike [OF n])
      from Cons.IH [OF _ s] Cons.prems(1) Event True show ?thesis
        by (simp add: add.assoc)
    next
      case False
      have s: "costUsd (claudeLine st l) = Num a"
        using Event False Cons.prems(2) by (simp add: claudeEvent_cost)
      from Cons.IH [OF _ s] Cons.prems(1) Event False show ?thesis by simp
    qed
  qed (use Cons in simp_all)
qed



lemma claudeFinish_model [simp]: "model (claudeFinish h st) = model st"
  by (auto simp: claudeFinish_def claudeDuration_def
      split: option.splits bool.splits cost_result.splits)


text \<open>
  The guard of the fallback is \<^verbatim>\<open>inputTokens > 0 || outputTokens > 0\<close>.  On token
  totals that are not negative, which is what the data model takes token counts to be, it
  says that a total is nonzero.  Outside the data model it does not: with a usage of -5
  input tokens the total is nonzero and the cost stays 0.
\<close>

lemma claude_negative_total_no_cost:
  "inputTokens (parseClaudeSession exampleHost
        ''/home/u/.claude/projects/-home-u-work-app/s2.jsonl'' (Readable negativeLog None)) = Num (- 5)
   \<and> costUsd (parseClaudeSession exampleHost
        ''/home/u/.claude/projects/-home-u-work-app/s2.jsonl'' (Readable negativeLog None)) = Num 0"
  by code_simp



section \<open>Durations\<close>

lemma trackTimestamp_duration [simp]: "duration (trackTimestamp ts st) = duration st"
  by (simp add: trackTimestamp_def)

lemma costFromTokens_duration [simp]: "duration (costFromTokens st) = duration st"
  by (auto simp: costFromTokens_def split: option.splits bool.splits cost_result.splits)

lemma codexEvent_duration [simp]: "duration (stats (codexEvent s ev)) = duration (stats s)"
  by (auto simp: codexEvent_def Let_def codexMeta_def codexRoles_def codexModel_def
      split: option.splits jsv.splits if_splits)

lemma codexLoop_duration [simp]: "duration (stats (codexLoop s ls)) = duration (stats s)"
  unfolding codexLoop_def
proof (induction ls arbitrary: s)
  case Nil
  show ?case by simp
next
  case (Cons l ls)
  show ?case by (cases l) (simp_all add: Cons.IH)
qed

lemma codexArray_duration:
  "codexArray st msgs = Done st' \<or> codexArray st msgs = Thrown st' \<Longrightarrow> duration st' = duration st"
  by (induction st msgs rule: codexArray.induct) (auto split: if_splits)

text \<open>The Codex parser never assigns \<^verbatim>\<open>duration\<close>: it is 0 for every file.\<close>

lemma codex_duration_zero: "duration (parseCodexSession fp c) = Num 0"
proof (cases c)
  case Unreadable
  then show ?thesis by (simp add: parseCodexSession_def codexInit_def)
next
  case (Readable ls whole)
  show ?thesis
  proof (cases "endsWith fp ''.jsonl''")
    case True
    with Readable show ?thesis
      by (simp add: parseCodexSession_def Let_def codexInit_def)
  next
    case False
    show ?thesis
    proof (cases whole)
      case None
      with Readable False show ?thesis by (simp add: parseCodexSession_def codexInit_def)
    next
      case (Some v)
      show ?thesis
      proof (cases v)
        case (JArr msgs)
        let ?st = "(codexInit fp)\<lparr>messages := length msgs\<rparr>"
        have "duration ?st = Num 0" by (simp add: codexInit_def)
        then show ?thesis
          using Readable False Some JArr codexArray_duration [of ?st msgs]
          by (cases "codexArray ?st msgs") (simp_all add: parseCodexSession_def)
      qed (use Readable False Some in \<open>simp_all add: parseCodexSession_def codexInit_def\<close>)
    qed
  qed
qed

lemma geminiLine_duration [simp]: "duration (geminiLine st l) = duration st"
  by (cases l) (simp_all add: geminiEvent_def Let_def)

text \<open>The Gemini parser reads no timestamp and never assigns \<^verbatim>\<open>duration\<close>.\<close>

lemma gemini_duration_zero:
  "duration (parseGeminiSession fp c) = Num 0
   \<and> firstMessage (parseGeminiSession fp c) = JNull
   \<and> lastMessage (parseGeminiSession fp c) = JNull"
proof (cases c)
  case Unreadable
  then show ?thesis by (simp add: parseGeminiSession_def geminiInit_def)
next
  case (Readable ls whole)
  have "duration (foldl geminiLine st ls) = duration st
      \<and> firstMessage (foldl geminiLine st ls) = firstMessage st
      \<and> lastMessage (foldl geminiLine st ls) = lastMessage st" for st
  proof (induction ls arbitrary: st)
    case Nil
    show ?case by simp
  next
    case (Cons l ls)
    have "firstMessage (geminiLine st l) = firstMessage st"
      "lastMessage (geminiLine st l) = lastMessage st"
      by (cases l; simp add: geminiEvent_def Let_def)+
    with Cons.IH [of "geminiLine st l"] show ?case by simp
  qed
  from this [of "geminiInit fp"] Readable show ?thesis
    by (auto simp: parseGeminiSession_def geminiInit_def costFromTokens_def
        split: option.splits bool.splits cost_result.splits)
qed

text \<open>The Claude parser does compute it: with tracked numbers and a priced model, the
  duration is the difference of the last and the first timestamp, floored at 0.\<close>

lemma claude_duration:
  assumes "costUsd st = Num c" and "inputTokens st = Num i" and "outputTokens st = Num oo"
    and "getModelPricing (model st) = Priced pr"
    and "truthy (firstMessage st)" and "truthy (lastMessage st)"
  shows "duration (claudeFinish h st)
         = Num (max 0 (getTime h (lastMessage st) - getTime h (firstMessage st)))"
  using assms
  by (auto simp: claudeFinish_def calculateCost_def claudeDuration_def split: bool.splits)

text \<open>
  A Codex file with two events five seconds apart: the parser records both timestamps, the
  difference of the two is 5000 milliseconds, and the record is returned with duration 0.
  The Gemini parser returns duration 0 on the same lines.
\<close>

lemma codex_duration_not_computed:
  "firstMessage (parseCodexSession ''/home/u/.codex/sessions/s4.jsonl'' (Readable timedLog None))
     = JStr ''2024-01-01T00:00:00.000Z''
   \<and> lastMessage (parseCodexSession ''/home/u/.codex/sessions/s4.jsonl'' (Readable timedLog None))
     = JStr ''2024-01-01T00:00:05.000Z''
   \<and> max 0 (getTime exampleHost (JStr ''2024-01-01T00:00:05.000Z'')
            - getTime exampleHost (JStr ''2024-01-01T00:00:00.000Z'')) = 5000
   \<and> duration (parseCodexSession ''/home/u/.codex/sessions/s4.jsonl'' (Readable timedLog None))
     = Num 0
   \<and> duration (parseGeminiSession ''/home/u/.gemini/tmp/g2.json'' (Readable timedLog None))
     = Num 0"
  by code_simp

subsection \<open>The timestamps a Claude record carries\<close>

lemma claudeEvent_timestamps:
  "firstMessage (claudeEvent st ev) =
     (if claudeCompletes ev \<and> truthy (eventTimestamp ev) \<and> \<not> truthy (firstMessage st)
      then eventTimestamp ev else firstMessage st)"
  "lastMessage (claudeEvent st ev) =
     (if claudeCompletes ev \<and> truthy (eventTimestamp ev) then eventTimestamp ev
      else lastMessage st)"
  by (auto simp: claudeEvent_def claudeCompletes_def Let_def claudeRoles_def claudeTokens_def
      claudeCost_def trackTimestamp_def claudeModel_def eventTimestamp_def split: option.splits)

lemma claudeLoop_timestamps:
  "firstMessage (claudeLoop st ls) =
     (if truthy (firstMessage st) \<or> claudeTimestamps ls = [] then firstMessage st
      else hd (claudeTimestamps ls))"
  "lastMessage (claudeLoop st ls) =
     (if claudeTimestamps ls = [] then lastMessage st else last (claudeTimestamps ls))"
  unfolding claudeLoop_def claudeTimestamps_def
proof (induction ls arbitrary: st)
  case Nil
  { case 1 show ?case by simp }
  { case 2 show ?case by simp }
next
  case (Cons l ls)
  { case 1 show ?case
      by (cases l) (auto simp: Cons.IH(1) claudeEvent_timestamps) }
  { case 2 show ?case
      by (cases l) (auto simp: Cons.IH(2) claudeEvent_timestamps) }
qed

lemma claudeFinish_timestamps [simp]:
  "firstMessage (claudeFinish h st) = firstMessage st"
  "lastMessage (claudeFinish h st) = lastMessage st"
  by (auto simp: claudeFinish_def claudeDuration_def
      split: option.splits bool.splits cost_result.splits)

text \<open>
  Claim C5 as stated fails for Provider C.  On a Gemini log of two turns whose timestamps
  are five seconds apart the claim gives a duration of 5000 milliseconds; the parser reads
  no timestamp and returns the record without timestamps and with duration 0.
\<close>

theorem gemini_duration_counterexample:
  "max 0 (getTime exampleHost (JStr ''2024-01-01T00:00:05.000Z'')
            - getTime exampleHost (JStr ''2024-01-01T00:00:00.000Z'')) = 5000
   \<and> messages (parseGeminiSession ''/home/u/.gemini/tmp/g2.json'' (Readable geminiTimedLog None)) = 2
   \<and> firstMessage (parseGeminiSession ''/home/u/.gemini/tmp/g2.json'' (Readable geminiTimedLog None))
       = JNull
   \<and> lastMessage (parseGeminiSession ''/home/u/.gemini/tmp/g2.json'' (Readable geminiTimedLog None))
       = JNull
   \<and> duration (parseGeminiSession ''/home/u/.gemini/tmp/g2.json'' (Readable geminiTimedLog None))
       = Num 0
   \<and> duration (parseGeminiSession ''/home/u/.gemini/tmp/g2.json'' (Readable geminiTimedLog None))
       \<noteq> Num 5000"
  by code_simp

text \<open>
  Claim C5, amended.  For a Claude file with at least one timestamped line that is
  processed to its end, whose summed cost and token counts are numbers and whose model the
  pricing lookup prices, the record carries the first and the last of these timestamps and
  its duration is their difference in milliseconds, floored at 0.  The Gemini parser reads
  no timestamps: for every file its record has neither a first nor a last timestamp and
  duration 0.  (Nothing is stated here for Provider B.)
\<close>

theorem duration_claude_gemini:
  assumes "claudeTimestamps ls \<noteq> []"
    and "costUsd (claudeLoop (claudeInit h fp) ls) = Num c"
    and "inputTokens (claudeLoop (claudeInit h fp) ls) = Num i"
    and "outputTokens (claudeLoop (claudeInit h fp) ls) = Num oo"
    and "getModelPricing (model (claudeLoop (claudeInit h fp) ls)) = Priced pr"
  shows "firstMessage (parseClaudeSession h fp (Readable ls whole)) = hd (claudeTimestamps ls)
   \<and> lastMessage (parseClaudeSession h fp (Readable ls whole)) = last (claudeTimestamps ls)
   \<and> duration (parseClaudeSession h fp (Readable ls whole))
       = Num (max 0 (getTime h (last (claudeTimestamps ls)) - getTime h (hd (claudeTimestamps ls))))
   \<and> firstMessage (parseGeminiSession fp' c') = JNull
   \<and> lastMessage (parseGeminiSession fp' c') = JNull
   \<and> duration (parseGeminiSession fp' c') = Num 0"
proof -
  let ?st = "claudeLoop (claudeInit h fp) ls"
  have init: "firstMessage (claudeInit h fp) = JNull" "lastMessage (claudeInit h fp) = JNull"
    by (simp_all add: claudeInit_def)
  have f: "firstMessage ?st = hd (claudeTimestamps ls)"
    and l: "lastMessage ?st = last (claudeTimestamps ls)"
    using assms(1) by (simp_all add: claudeLoop_timestamps init)
  have "hd (claudeTimestamps ls) \<in> set (claudeTimestamps ls)"
    and "last (claudeTimestamps ls) \<in> set (claudeTimestamps ls)"
    using assms(1) by simp_all
  then have tf: "truthy (firstMessage ?st)" and tl: "truthy (lastMessage ?st)"
    unfolding f l by (simp_all add: claudeTimestamps_def)
  have d: "duration (claudeFinish h ?st)
      = Num (max 0 (getTime h (lastMessage ?st) - getTime h (firstMessage ?st)))"
    by (rule claude_duration [OF assms(2) assms(3) assms(4) assms(5) tf tl])
  show ?thesis
    using d f l gemini_duration_zero [of fp' c'] by (simp add: parseClaudeSession_def)
qed

text \<open>Two Claude turns five seconds apart: 5000 milliseconds.\<close>

theorem duration_claude_gemini_witness:
  "claudeTimestamps claudeTimedLog
     = [JStr ''2024-01-01T00:00:00.000Z'', JStr ''2024-01-01T00:00:05.000Z'']
   \<and> firstMessage (parseClaudeSession exampleHost
        ''/home/u/.claude/projects/-home-u-work-app/s4.jsonl'' (Readable claudeTimedLog None))
       = JStr ''2024-01-01T00:00:00.000Z''
   \<and> lastMessage (parseClaudeSession exampleHost
        ''/home/u/.claude/projects/-home-u-work-app/s4.jsonl'' (Readable claudeTimedLog None))
       = JStr ''2024-01-01T00:00:05.000Z''
   \<and> duration (parseClaudeSession exampleHost
        ''/home/u/.claude/projects/-home-u-work-app/s4.jsonl'' (Readable claudeTimedLog None))
       = Num 5000
   \<and> duration (parseGeminiSession ''/home/u/.gemini/tmp/g2.json'' (Readable geminiTimedLog None))
       = Num 0"
proof -
  let ?fp = "''/home/u/.claude/projects/-home-u-work-app/s4.jsonl''"
  have ts: "claudeTimestamps claudeTimedLog
     = [JStr ''2024-01-01T00:00:00.000Z'', JStr ''2024-01-01T00:00:05.000Z'']"
    by code_simp
  then have ne: "claudeTimestamps claudeTimedLog \<noteq> []" by simp
  have c: "costUsd (claudeLoop (claudeInit exampleHost ?fp) claudeTimedLog) = Num 0"
    and i: "inputTokens (claudeLoop (claudeInit exampleHost ?fp) claudeTimedLog) = Num 0"
    and o: "outputTokens (claudeLoop (claudeInit exampleHost ?fp) claudeTimedLog) = Num 0"
    and p: "getModelPricing (model (claudeLoop (claudeInit exampleHost ?fp) claudeTimedLog))
        = Priced \<lparr>inputPer1M = 3, outputPer1M = 15\<rparr>"
    by code_simp+
  have g: "getTime exampleHost (JStr ''2024-01-01T00:00:05.000Z'')
      - getTime exampleHost (JStr ''2024-01-01T00:00:00.000Z'') = 5000"
    by code_simp
  note t = duration_claude_gemini [OF ne c i o p, of None "''/home/u/.gemini/tmp/g2.json''"
      "Readable geminiTimedLog None", unfolded ts]
  show ?thesis
    using t g by (simp add: ts)
qed

section \<open>Whole-file arrays (Provider B)\<close>

lemma codexArray_fields:
  assumes "codexArray st msgs = Done st' \<or> codexArray st msgs = Thrown st'"
  shows "messages st' = messages st \<and> inputTokens st' = inputTokens st
       \<and> outputTokens st' = outputTokens st \<and> costUsd st' = costUsd st
       \<and> model st' = model st \<and> firstMessage st' = firstMessage st
       \<and> lastMessage st' = lastMessage st"
  using assms by (induction st msgs rule: codexArray.induct) (auto split: if_splits)

lemma codexArray_counts:
  assumes "codexArray st msgs = Done st' \<or> codexArray st msgs = Thrown st'"
  shows "userMessages st' = userMessages st + roleCount ''user'' (takeWhile (\<lambda>m. \<not> nullish m) msgs)
       \<and> assistantMessages st'
           = assistantMessages st + roleCount ''assistant'' (takeWhile (\<lambda>m. \<not> nullish m) msgs)"
  using assms
  by (induction st msgs rule: codexArray.induct) (auto simp: roleCount_def split: if_splits)

lemma codexArray_total: "\<exists>st'. codexArray st msgs = Done st' \<or> codexArray st msgs = Thrown st'"
  by (cases "codexArray st msgs") auto

text \<open>What the parser returns for a whole-file array: the length of the array as message
  count, no token, cost, model or timestamp, and role counts over the elements that come
  before the first null element.\<close>

lemma codex_array_record:
  assumes "\<not> endsWith fp ''.jsonl''"
  shows "messages (parseCodexSession fp (Readable ls (Some (JArr msgs)))) = length msgs
   \<and> inputTokens (parseCodexSession fp (Readable ls (Some (JArr msgs)))) = Num 0
   \<and> outputTokens (parseCodexSession fp (Readable ls (Some (JArr msgs)))) = Num 0
   \<and> costUsd (parseCodexSession fp (Readable ls (Some (JArr msgs)))) = Num 0
   \<and> model (parseCodexSession fp (Readable ls (Some (JArr msgs)))) = JNull
   \<and> firstMessage (parseCodexSession fp (Readable ls (Some (JArr msgs)))) = JNull
   \<and> lastMessage (parseCodexSession fp (Readable ls (Some (JArr msgs)))) = JNull
   \<and> userMessages (parseCodexSession fp (Readable ls (Some (JArr msgs))))
       = roleCount ''user'' (takeWhile (\<lambda>m. \<not> nullish m) msgs)
   \<and> assistantMessages (parseCodexSession fp (Readable ls (Some (JArr msgs))))
       = roleCount ''assistant'' (takeWhile (\<lambda>m. \<not> nullish m) msgs)"
proof -
  let ?st = "(codexInit fp)\<lparr>messages := length msgs\<rparr>"
  obtain st' where r: "codexArray ?st msgs = Done st' \<or> codexArray ?st msgs = Thrown st'"
    using codexArray_total by blast
  note f = codexArray_fields [OF r] and c = codexArray_counts [OF r]
  have z: "costFromTokens st' = st'"
    using f by (simp add: costFromTokens_def codexInit_def)
  have p: "parseCodexSession fp (Readable ls (Some (JArr msgs))) = st'"
    using assms r z by (auto simp: parseCodexSession_def)
  show ?thesis
    unfolding p using f c by (simp add: codexInit_def)
qed

text \<open>
  Claim C10, at the file \<^verbatim>\<open>[null, {"role":"user"}, {"role":"assistant"}]\<close> stored under
  a name that does not end in \<^verbatim>\<open>.jsonl\<close>: the array has one element of each role, and
  the record is returned with three messages, no user message and no assistant message.
  Reading \<^verbatim>\<open>msg.role\<close> on the null element throws, and the exception ends the loop.
  Tokens, cost, model and timestamps are empty as the claim says.
\<close>

theorem codex_array_null_element:
  "\<not> endsWith ''/home/u/.codex/sessions/old.json'' ''.jsonl''
   \<and> roleCount ''user'' arrayWithNull = 1
   \<and> roleCount ''assistant'' arrayWithNull = 1
   \<and> messages (parseCodexSession ''/home/u/.codex/sessions/old.json''
        (Readable [Event (JArr arrayWithNull)] (Some (JArr arrayWithNull)))) = 3
   \<and> userMessages (parseCodexSession ''/home/u/.codex/sessions/old.json''
        (Readable [Event (JArr arrayWithNull)] (Some (JArr arrayWithNull)))) = 0
   \<and> assistantMessages (parseCodexSession ''/home/u/.codex/sessions/old.json''
        (Readable [Event (JArr arrayWithNull)] (Some (JArr arrayWithNull)))) = 0
   \<and> inputTokens (parseCodexSession ''/home/u/.codex/sessions/old.json''
        (Readable [Event (JArr arrayWithNull)] (Some (JArr arrayWithNull)))) = Num 0
   \<and> outputTokens (parseCodexSession ''/home/u/.codex/sessions/old.json''
        (Readable [Event (JArr arrayWithNull)] (Some (JArr arrayWithNull)))) = Num 0
   \<and> costUsd (parseCodexSession ''/home/u/.codex/sessions/old.json''
        (Readable [Event (JArr arrayWithNull)] (Some (JArr arrayWithNull)))) = Num 0
   \<and> model (parseCodexSession ''/home/u/.codex/sessions/old.json''
        (Readable [Event (JArr arrayWithNull)] (Some (JArr arrayWithNull)))) = JNull"
  by code_simp

section \<open>Change detection\<close>

lemma getFileRecord_None: "getFileRecord d fp = None \<longleftrightarrow> (\<forall>r \<in> set (files d). filePath r \<noteq> fp)"
  by (auto simp: getFileRecord_def find_None_iff)

lemma processFile_unchanged_stat:
  "getFileRecord d fp = Some r \<Longrightarrow> mtime r = m \<Longrightarrow> fileSize r = sz \<Longrightarrow>
   processFile h now p (d, a, u) \<lparr>entryPath = fp, entryStat = Some (m, sz), entryContent = c\<rparr> = (d, a, u)"
  by (simp add: processFile_def needsUpdate_def)

text \<open>
  Claim C3.  \<^verbatim>\<open>needsUpdate(path, currentMtime, currentSize)\<close> is true exactly when the
  \<^verbatim>\<open>files\<close> table has no row for the path, or the row it has differs from the current
  values in its modification time or in its size.  In particular a tracked file whose
  modification time and size are as stored is skipped by the sync loop whatever its content
  is now: the store and the counters are left as they are.
\<close>

theorem needsUpdate_iff:
  "(needsUpdate d fp currentMtime currentSize \<longleftrightarrow>
      (\<forall>r \<in> set (files d). filePath r \<noteq> fp)
      \<or> (\<exists>r. getFileRecord d fp = Some r \<and> (mtime r \<noteq> currentMtime \<or> fileSize r \<noteq> currentSize)))
   \<and> ((\<exists>r. getFileRecord d fp = Some r \<and> mtime r = currentMtime \<and> fileSize r = currentSize) \<longrightarrow>
        processFile h now p (d, a, u)
          \<lparr>entryPath = fp, entryStat = Some (currentMtime, currentSize), entryContent = c\<rparr> = (d, a, u))"
proof (intro conjI impI)
  show "needsUpdate d fp currentMtime currentSize \<longleftrightarrow>
      (\<forall>r \<in> set (files d). filePath r \<noteq> fp)
      \<or> (\<exists>r. getFileRecord d fp = Some r \<and> (mtime r \<noteq> currentMtime \<or> fileSize r \<noteq> currentSize))"
  proof (cases "getFileRecord d fp")
    case None
    moreover from None have "\<forall>r \<in> set (files d). filePath r \<noteq> fp"
      by (simp add: getFileRecord_None)
    ultimately show ?thesis by (simp add: needsUpdate_def)
  next
    case (Some r)
    then have "\<not> (\<forall>r \<in> set (files d). filePath r \<noteq> fp)"
      using getFileRecord_None [of d fp] by simp
    with Some show ?thesis by (auto simp: needsUpdate_def)
  qed
next
  assume "\<exists>r. getFileRecord d fp = Some r \<and> mtime r = currentMtime \<and> fileSize r = currentSize"
  then show "processFile h now p (d, a, u)
      \<lparr>entryPath = fp, entryStat = Some (currentMtime, currentSize), entryContent = c\<rparr> = (d, a, u)"
    by (auto simp: processFile_unchanged_stat)
qed

text \<open>On the example store: the tracked file with its stored values is not due, and is
  skipped although its content is now a different log; a changed modification time, a
  changed size and an untracked path are due.\<close>

theorem needsUpdate_iff_witness:
  "\<not> needsUpdate exampleDb trackedPath 1700000000000 321
   \<and> (\<exists>r. getFileRecord exampleDb trackedPath = Some r \<and> mtime r = 1700000000000 \<and> fileSize r = 321)
   \<and> processFile exampleHost 1700000009000 codex (exampleDb, 0, 0)
        \<lparr>entryPath = trackedPath, entryStat = Some (1700000000000, 321),
         entryContent = Readable [tokenCount 999 999] None\<rparr> = (exampleDb, 0, 0)
   \<and> needsUpdate exampleDb trackedPath 1700000000001 321
   \<and> needsUpdate exampleDb trackedPath 1700000000000 322
   \<and> needsUpdate exampleDb ''/home/u/.codex/sessions/s2.jsonl'' 1700000000000 321"
proof -
  have g: "getFileRecord exampleDb trackedPath =
      Some \<lparr>filePath = trackedPath, fileProvider = codex, mtime = 1700000000000,
            fileSize = 321, lastParsed = 1700000000500\<rparr>"
    by (simp add: getFileRecord_def exampleDb_def)
  have f: "files exampleDb = [\<lparr>filePath = trackedPath, fileProvider = codex,
      mtime = 1700000000000, fileSize = 321, lastParsed = 1700000000500\<rparr>]"
    by (simp add: exampleDb_def)
  have n: "trackedPath \<noteq> ''/home/u/.codex/sessions/s2.jsonl''"
    by (simp add: trackedPath_def)
  note t1 = needsUpdate_iff [of exampleDb trackedPath 1700000000000 321 exampleHost 1700000009000
      codex 0 0 "Readable [tokenCount 999 999] None", unfolded g f]
  note t2 = needsUpdate_iff [of exampleDb trackedPath 1700000000001 321 exampleHost 0 codex 0 0
      Unreadable, unfolded g f, THEN conjunct1]
  note t3 = needsUpdate_iff [of exampleDb trackedPath 1700000000000 322 exampleHost 0 codex 0 0
      Unreadable, unfolded g f, THEN conjunct1]
  note t4 = needsUpdate_iff [of exampleDb "''/home/u/.codex/sessions/s2.jsonl''" 1700000000000 321
      exampleHost 0 codex 0 0 Unreadable, unfolded f, THEN conjunct1]
  show ?thesis
    using t1 t2 t3 t4 n by (simp add: g)
qed

section \<open>Zero-message discard\<close>

text \<open>
  Claim C6.  When the record the parser returns for a candidate file has no message,
  processing that file in \<^verbatim>\<open>syncProvider\<close> upserts neither a session nor a
  file-tracking record: the whole store (both tables, hence their row counts and every
  other record) and the two counters are as before.  This holds whether the file is new
  or already tracked, and whatever its modification time and size are.
\<close>

theorem zero_messages_not_stored:
  assumes "messages (parseSession h p (entryPath e) (entryContent e)) = 0"
  shows "processFile h now p (d, a, u) e = (d, a, u)"
  using assms by (simp add: processFile_def Let_def split: option.splits prod.splits)

text \<open>On the example store: a new Gemini file and the tracked Codex file, now changed to
  a log without a parsable line, both leave the store as it is.\<close>

theorem zero_messages_not_stored_witness:
  "messages (parseSession exampleHost gemini ''/home/u/.gemini/tmp/g1.json'' headerOnlyLog) = 0
   \<and> processFile exampleHost 1700000009000 gemini (exampleDb, 0, 0)
        \<lparr>entryPath = ''/home/u/.gemini/tmp/g1.json'', entryStat = Some (1700000005000, 2),
         entryContent = headerOnlyLog\<rparr> = (exampleDb, 0, 0)
   \<and> messages (parseSession exampleHost codex trackedPath headerOnlyLog) = 0
   \<and> needsUpdate exampleDb trackedPath 1700000005000 2
   \<and> processFile exampleHost 1700000009000 codex (exampleDb, 0, 0)
        \<lparr>entryPath = trackedPath, entryStat = Some (1700000005000, 2),
         entryContent = headerOnlyLog\<rparr> = (exampleDb, 0, 0)"
proof -
  have m1: "messages (parseSession exampleHost gemini ''/home/u/.gemini/tmp/g1.json'' headerOnlyLog) = 0"
    by (simp add: parseSession_def parseGeminiSession_def headerOnlyLog_def geminiInit_def
        costFromTokens_def)
  have m2: "messages (parseSession exampleHost codex trackedPath headerOnlyLog) = 0"
    by (simp add: parseSession_def parseCodexSession_def headerOnlyLog_def codexInit_def
        costFromTokens_def codexLoop_def trackedPath_def endsWith_def)
  have n: "needsUpdate exampleDb trackedPath 1700000005000 2"
    by (simp add: needsUpdate_def getFileRecord_def exampleDb_def)
  have t1: "processFile exampleHost 1700000009000 gemini (exampleDb, 0, 0)
        \<lparr>entryPath = ''/home/u/.gemini/tmp/g1.json'', entryStat = Some (1700000005000, 2),
         entryContent = headerOnlyLog\<rparr> = (exampleDb, 0, 0)"
    by (rule zero_messages_not_stored) (simp add: m1)
  have t2: "processFile exampleHost 1700000009000 codex (exampleDb, 0, 0)
        \<lparr>entryPath = trackedPath, entryStat = Some (1700000005000, 2),
         entryContent = headerOnlyLog\<rparr> = (exampleDb, 0, 0)"
    by (rule zero_messages_not_stored) (simp add: m2)
  show ?thesis using m1 m2 n t1 t2 by simp
qed

section \<open>Idempotent resync\<close>

subsection \<open>Reading the \<^verbatim>\<open>files\<close> table after an update\<close>

lemma find_updated_other:
  assumes "fp' \<noteq> fp"
  shows "find (\<lambda>r. filePath r = fp')
           (map (\<lambda>r. if filePath r = fp then r\<lparr>mtime := m, fileSize := sz, lastParsed := t\<rparr> else r) rows)
         = find (\<lambda>r. filePath r = fp') rows"
  using assms by (induction rows) auto

lemma find_updated_same:
  assumes "\<exists>r \<in> set rows. filePath r = fp"
  shows "\<exists>r. find (\<lambda>r. filePath r = fp)
             (map (\<lambda>r. if filePath r = fp then r\<lparr>mtime := m, fileSize := sz, lastParsed := t\<rparr> else r) rows)
           = Some r \<and> mtime r = m \<and> fileSize r = sz"
  using assms by (induction rows) auto

lemma find_appended_new:
  assumes "\<forall>r \<in> set rows. filePath r \<noteq> fp" and "filePath new = fp"
  shows "find (\<lambda>r. filePath r = fp) (rows @ [new]) = Some new"
  using assms by (induction rows) auto

lemma find_appended_other:
  assumes "filePath new \<noteq> fp'"
  shows "find (\<lambda>r. filePath r = fp') (rows @ [new]) = find (\<lambda>r. filePath r = fp') rows"
  using assms by (induction rows) auto

lemma getFileRecord_upsertSession [simp]:
  "getFileRecord (upsertSession h d s) fp = getFileRecord d fp"
  by (simp add: getFileRecord_def upsertSession_def)

lemma getFileRecord_upsertFileRecord_same:
  "\<exists>r. getFileRecord (upsertFileRecord d fp p m sz t) fp = Some r \<and> mtime r = m \<and> fileSize r = sz"
proof (cases "\<exists>r \<in> set (files d). filePath r = fp")
  case True
  from find_updated_same [OF True, where m = m and sz = sz and t = t] True show ?thesis
    by (simp add: getFileRecord_def upsertFileRecord_def)
next
  case False
  then have "find (\<lambda>r. filePath r = fp)
      (files d @ [\<lparr>filePath = fp, fileProvider = p, mtime = m, fileSize = sz, lastParsed = t\<rparr>])
    = Some \<lparr>filePath = fp, fileProvider = p, mtime = m, fileSize = sz, lastParsed = t\<rparr>"
    by (intro find_appended_new) auto
  with False show ?thesis
    by (simp add: getFileRecord_def upsertFileRecord_def)
qed

lemma getFileRecord_upsertFileRecord_other:
  "fp' \<noteq> fp \<Longrightarrow> getFileRecord (upsertFileRecord d fp p m sz t) fp' = getFileRecord d fp'"
  by (simp add: getFileRecord_def upsertFileRecord_def find_updated_other find_appended_other)

lemma needsUpdate_cong:
  "getFileRecord d' fp = getFileRecord d fp \<Longrightarrow> needsUpdate d' fp m sz = needsUpdate d fp m sz"
  by (simp add: needsUpdate_def)

subsection \<open>The loop body\<close>

lemma processFile_counters:
  "fst (processFile h now p (d, a, u) e) = dbAfter h now p d e"
  by (simp add: dbAfter_def processFile_def Let_def split: option.splits prod.splits)

lemma loop_db:
  "fst (foldl (processFile h now p) (d, a, u) es) = foldl (dbAfter h now p) d es"
proof (induction es arbitrary: d a u)
  case Nil
  show ?case by simp
next
  case (Cons e es)
  obtain d' a' u' where s: "processFile h now p (d, a, u) e = (d', a', u')"
    by (cases "processFile h now p (d, a, u) e") auto
  then have "d' = dbAfter h now p d e"
    using processFile_counters [of h now p d a u e] by simp
  with s Cons.IH [of d' a' u'] show ?case by simp
qed

lemma processFile_settled:
  "settled h p d e \<Longrightarrow> processFile h now p (d, a, u) e = (d, a, u)"
  by (auto simp: settled_def processFile_def Let_def split: option.splits prod.splits)

lemma loop_settled_noop:
  "\<forall>e \<in> set es. settled h p d e \<Longrightarrow> foldl (processFile h now p) (d, a, u) es = (d, a, u)"
  by (induction es) (simp_all add: processFile_settled)

lemma getFileRecord_dbAfter_other:
  "fp \<noteq> entryPath e \<Longrightarrow> getFileRecord (dbAfter h now p d e) fp = getFileRecord d fp"
  by (simp add: dbAfter_def processFile_def Let_def getFileRecord_upsertFileRecord_other
      split: option.splits prod.splits)

lemma settled_dbAfter_same: "settled h p (dbAfter h now p d e) e"
proof (cases "settled h p d e")
  case True
  then show ?thesis using processFile_settled [of h p d e now 0 0] by (simp add: dbAfter_def)
next
  case False
  then obtain m sz where st: "entryStat e = Some (m, sz)"
    and nu: "needsUpdate d (entryPath e) m sz"
    and ms: "messages (parseSession h p (entryPath e) (entryContent e)) > 0"
    by (auto simp: settled_def split: option.splits)
  let ?s = "parseSession h p (entryPath e) (entryContent e)"
  have d: "dbAfter h now p d e = upsertFileRecord (upsertSession h d ?s) (entryPath e) p m sz now"
    using st nu ms by (simp add: dbAfter_def processFile_def Let_def)
  obtain r where "getFileRecord (dbAfter h now p d e) (entryPath e) = Some r"
    and "mtime r = m" and "fileSize r = sz"
    unfolding d using getFileRecord_upsertFileRecord_same by blast
  then have "\<not> needsUpdate (dbAfter h now p d e) (entryPath e) m sz"
    by (simp add: needsUpdate_def)
  with st show ?thesis by (simp add: settled_def)
qed

lemma settled_cong:
  "getFileRecord d' (entryPath e) = getFileRecord d (entryPath e) \<Longrightarrow>
   settled h p d' e = settled h p d e"
  by (simp add: settled_def needsUpdate_def split: option.splits)

lemma settled_dbAfter_other:
  "entryPath e \<noteq> entryPath e' \<Longrightarrow> settled h p d e \<Longrightarrow> settled h p (dbAfter h now p d e') e"
  using settled_cong [OF getFileRecord_dbAfter_other] by blast

lemma loop_settles:
  assumes "distinct (map entryPath es)"
  shows "\<forall>e \<in> set es. settled h p (foldl (dbAfter h now p) d es) e"
  using assms
proof (induction es rule: rev_induct)
  case Nil
  show ?case by simp
next
  case (snoc x xs)
  then have ih: "\<forall>e \<in> set xs. settled h p (foldl (dbAfter h now p) d xs) e"
    and nx: "\<forall>e \<in> set xs. entryPath e \<noteq> entryPath x"
    by (auto simp: image_iff)
  show ?case
  proof
    fix e assume "e \<in> set (xs @ [x])"
    then consider "e = x" | "e \<in> set xs" "e \<noteq> x" by auto
    then show "settled h p (foldl (dbAfter h now p) d (xs @ [x])) e"
    proof cases
      case 1
      then show ?thesis by (simp add: settled_dbAfter_same)
    next
      case 2
      with ih nx show ?thesis by (simp add: settled_dbAfter_other)
    qed
  qed
qed

subsection \<open>The cleanup pass\<close>

lemma cleanup_fold:
  "foldl (\<lambda>(d, deletedCount) fp.
            if fp \<notin> set ex then (deleteFileAndSession d fp, deletedCount + 1)
            else (d, deletedCount)) (d, n) ts
   = (foldl deleteFileAndSession d (filter (\<lambda>fp. fp \<notin> set ex) ts),
      n + length (filter (\<lambda>fp. fp \<notin> set ex) ts))"
  by (induction ts arbitrary: d n) simp_all

lemma cleanupDeletedFiles_eq:
  "cleanupDeletedFiles d p ex
   = (foldl deleteFileAndSession d (filter (\<lambda>fp. fp \<notin> set ex) (getTrackedFiles d p)),
      length (filter (\<lambda>fp. fp \<notin> set ex) (getTrackedFiles d p)))"
  by (simp add: cleanupDeletedFiles_def cleanup_fold)

lemma files_deleted:
  "files (foldl deleteFileAndSession d fps) = filter (\<lambda>r. filePath r \<notin> set fps) (files d)"
proof (induction fps arbitrary: d)
  case Nil
  show ?case by simp
next
  case (Cons fp fps)
  show ?case
  proof -
    have "files (foldl deleteFileAndSession d (fp # fps))
        = filter (\<lambda>r. filePath r \<notin> set fps) (files (deleteFileAndSession d fp))"
      by (simp add: Cons.IH)
    also have "\<dots> = filter (\<lambda>r. filePath r \<notin> set (fp # fps)) (files d)"
      by (simp add: deleteFileAndSession_def conj_commute)
    finally show ?thesis .
  qed
qed

lemma find_filter_kept:
  assumes "\<And>r. filePath r = fp \<Longrightarrow> keep r"
  shows "find (\<lambda>r. filePath r = fp) (filter keep rows) = find (\<lambda>r. filePath r = fp) rows"
  using assms by (induction rows) auto

lemma getFileRecord_deleted:
  "fp \<notin> set fps \<Longrightarrow> getFileRecord (foldl deleteFileAndSession d fps) fp = getFileRecord d fp"
  by (simp add: getFileRecord_def files_deleted find_filter_kept)

lemma settled_cleanup:
  assumes "entryPath e \<in> set ex" and "settled h p d e"
  shows "settled h p (fst (cleanupDeletedFiles d p ex)) e"
proof -
  have "entryPath e \<notin> set (filter (\<lambda>fp. fp \<notin> set ex) (getTrackedFiles d p))"
    using assms(1) by simp
  then have "getFileRecord (fst (cleanupDeletedFiles d p ex)) (entryPath e)
      = getFileRecord d (entryPath e)"
    by (simp add: cleanupDeletedFiles_eq getFileRecord_deleted)
  from settled_cong [OF this] assms(2) show ?thesis by simp
qed

lemma tracked_after_cleanup:
  "set (getTrackedFiles (fst (cleanupDeletedFiles d p ex)) p) \<subseteq> set ex"
  by (auto simp: cleanupDeletedFiles_eq getTrackedFiles_def files_deleted)

lemma cleanup_noop:
  assumes "set (getTrackedFiles d p) \<subseteq> set ex"
  shows "cleanupDeletedFiles d p ex = (d, 0)"
proof -
  from assms have "filter (\<lambda>fp. fp \<notin> set ex) (getTrackedFiles d p) = []"
    by (auto simp: filter_empty_conv)
  then show ?thesis by (simp add: cleanupDeletedFiles_eq)
qed

subsection \<open>Two passes\<close>

lemma syncProvider_db:
  "fs p = Some es \<Longrightarrow>
   fst (syncProvider h now fs p d)
     = fst (cleanupDeletedFiles (foldl (dbAfter h now p) d es) p (map entryPath es))"
proof -
  assume f: "fs p = Some es"
  obtain d1 a u where l: "foldl (processFile h now p) (d, 0, 0) es = (d1, a, u)"
    by (cases "foldl (processFile h now p) (d, 0, 0) es") auto
  then have d1: "d1 = foldl (dbAfter h now p) d es"
    using loop_db [of h now p d 0 0 es] by simp
  obtain d2 n where c: "cleanupDeletedFiles d1 p (map entryPath es) = (d2, n)"
    by (cases "cleanupDeletedFiles d1 p (map entryPath es)") auto
  show ?thesis
    using f l c by (simp add: syncProvider_def d1 [symmetric])
qed

lemma syncProvider_settled:
  assumes "fs p = Some es"
    and "\<forall>e \<in> set es. settled h p d e"
    and "set (getTrackedFiles d p) \<subseteq> set (map entryPath es)"
  shows "syncProvider h now fs p d = (d, \<lparr>added = 0, updated = 0, deleted = 0\<rparr>)"
  using assms
  by (simp add: syncProvider_def loop_settled_noop cleanup_noop)

text \<open>
  Claim C4.  For every provider, every store and every file system in which the file list
  of the provider names each path once, a second \<^verbatim>\<open>syncProvider\<close> on the same file
  system, started from the store the first one left, reports no file added, updated or
  deleted and returns that store unchanged: both tables, so in particular the set of
  session records, are identical.  The clock may have moved between the two calls.
\<close>

theorem resync_idempotent:
  assumes "case fs p of None \<Rightarrow> True | Some es \<Rightarrow> distinct (map entryPath es)"
  shows "syncProvider h now2 fs p (fst (syncProvider h now1 fs p d))
         = (fst (syncProvider h now1 fs p d), \<lparr>added = 0, updated = 0, deleted = 0\<rparr>)"
proof (cases "fs p")
  case None
  then show ?thesis by (simp add: syncProvider_def)
next
  case (Some es)
  with assms have dist: "distinct (map entryPath es)" by simp
  let ?loop = "foldl (dbAfter h now1 p) d es"
  let ?d1 = "fst (syncProvider h now1 fs p d)"
  have d1: "?d1 = fst (cleanupDeletedFiles ?loop p (map entryPath es))"
    using Some by (rule syncProvider_db [of fs p es h now1 d])
  have "\<forall>e \<in> set es. settled h p ?loop e"
    by (rule loop_settles [OF dist])
  then have s: "\<forall>e \<in> set es. settled h p ?d1 e"
    unfolding d1 by (auto intro: settled_cleanup)
  have t: "set (getTrackedFiles ?d1 p) \<subseteq> set (map entryPath es)"
    unfolding d1 by (rule tracked_after_cleanup)
  show ?thesis
    using Some s t by (rule syncProvider_settled [of fs p es h ?d1 now2])
qed

text \<open>On the example: the first pass over the Codex directory adds one session and deletes
  the one whose file is gone; the second pass changes nothing.\<close>

theorem resync_idempotent_witness:
  "distinct (map entryPath (the (exampleFs codex)))
   \<and> snd (syncProvider exampleHost 1700000400000 exampleFs codex exampleDb)
       = \<lparr>added = 1, updated = 0, deleted = 1\<rparr>
   \<and> syncProvider exampleHost 1700000460000 exampleFs codex
        (fst (syncProvider exampleHost 1700000400000 exampleFs codex exampleDb))
       = (fst (syncProvider exampleHost 1700000400000 exampleFs codex exampleDb),
          \<lparr>added = 0, updated = 0, deleted = 0\<rparr>)"
proof -
  have dist: "distinct (map entryPath (the (exampleFs codex)))"
    by (simp add: exampleFs_def)
  have hyp: "case exampleFs codex of None \<Rightarrow> True | Some es \<Rightarrow> distinct (map entryPath es)"
    by (simp add: exampleFs_def)
  have first: "snd (syncProvider exampleHost 1700000400000 exampleFs codex exampleDb)
       = \<lparr>added = 1, updated = 0, deleted = 1\<rparr>"
    by code_simp
  show ?thesis
    using dist first hyp
      resync_idempotent [of exampleFs codex exampleHost 1700000460000 1700000400000 exampleDb]
    by simp
qed

section \<open>The cache-fronted read path\<close>

text \<open>
  Claim C9 as stated fails when no snapshot can be used and the provider's directory does
  not exist.  On a parser without snapshots whose store still holds a Codex session, with
  the Codex directory missing, the claim has \<^verbatim>\<open>getSessions\<close> sync, read that session
  from the store and keep it as the snapshot; the code returns the empty list and leaves
  the snapshot unset.
\<close>

theorem getSessions_missing_directory_counterexample:
  "length (fst (getSessionsSpec exampleHost 1700000400000 noDirectories coldState codex)) = 1
   \<and> fst (getSessions exampleHost 1700000400000 noDirectories coldState codex) = []
   \<and> cache (snd (getSessionsSpec exampleHost 1700000400000 noDirectories coldState codex)) codex
       \<noteq> None
   \<and> cache (snd (getSessions exampleHost 1700000400000 noDirectories coldState codex)) codex
       = None
   \<and> fst (getSessions exampleHost 1700000400000 noDirectories coldState codex)
       \<noteq> fst (getSessionsSpec exampleHost 1700000400000 noDirectories coldState codex)"
  by code_simp

lemma syncAll_keeps_cache:
  "cache (syncAll h t fs st) = cache st \<and> lastSyncTime (syncAll h t fs st) = t"
  by (simp add: syncAll_def Let_def)

text \<open>\<^verbatim>\<open>getSessions\<close> never sets the time of the last sync: only \<^verbatim>\<open>syncAll\<close>
  does.\<close>

lemma getSessions_keeps_lastSyncTime:
  "lastSyncTime (snd (getSessions h now fs st p)) = lastSyncTime st"
  by (auto simp: getSessions_def Let_def split: option.splits bool.splits)

text \<open>
  Claim C9, amended.  Take a parser right after a \<^verbatim>\<open>syncAll\<close> at time \<open>t\<close>.  If it
  holds a snapshot for the provider and the call comes less than the sync interval
  (5000 ms) after \<open>t\<close>, \<^verbatim>\<open>getSessions\<close> returns the snapshot and leaves the parser
  state, store included, as it is.  If the call comes later, or if the parser (in any
  state) holds no snapshot for the provider, then: when the provider's directory does not
  exist, \<^verbatim>\<open>getSessions\<close> returns the empty list and leaves the state as it is;
  otherwise it runs \<^verbatim>\<open>syncProvider\<close>, returns the provider's sessions as read from the
  store the sync left, and keeps them as the snapshot.  (Nothing is stated here for a call
  whose only sync within the interval was one that \<^verbatim>\<open>getSessions\<close> ran itself.)
\<close>

theorem getSessions_cache_fronted:
  "(cache st p = Some snapshot \<and> now - t < syncInterval \<longrightarrow>
      getSessions h now fs (syncAll h t fs' st) p = (snapshot, syncAll h t fs' st))
   \<and> (\<not> now - t < syncInterval \<and> fs p = None \<longrightarrow>
      getSessions h now fs (syncAll h t fs' st) p = ([], syncAll h t fs' st))
   \<and> (\<not> now - t < syncInterval \<and> fs p \<noteq> None \<longrightarrow>
      getSessions h now fs (syncAll h t fs' st) p
        = getSessionsSpec h now fs (syncAll h t fs' st) p
      \<and> fst (getSessions h now fs (syncAll h t fs' st) p)
        = dbGetSessions (fst (syncProvider h now fs p (db (syncAll h t fs' st)))) p
      \<and> db (snd (getSessions h now fs (syncAll h t fs' st) p))
        = fst (syncProvider h now fs p (db (syncAll h t fs' st)))
      \<and> cache (snd (getSessions h now fs (syncAll h t fs' st) p)) p
        = Some (fst (getSessions h now fs (syncAll h t fs' st) p)))
   \<and> (cache st p = None \<and> fs p = None \<longrightarrow> getSessions h now fs st p = ([], st))
   \<and> (cache st p = None \<and> fs p \<noteq> None \<longrightarrow>
      getSessions h now fs st p = getSessionsSpec h now fs st p
      \<and> fst (getSessions h now fs st p) = dbGetSessions (fst (syncProvider h now fs p (db st))) p
      \<and> db (snd (getSessions h now fs st p)) = fst (syncProvider h now fs p (db st))
      \<and> cache (snd (getSessions h now fs st p)) p = Some (fst (getSessions h now fs st p)))"
proof -
  have hit: "getSessions h now fs s p = (snapshot, s)"
    if "cache s p = Some snapshot" and "now - lastSyncTime s < syncInterval" for s
    using that by (simp add: getSessions_def)
  have gone: "getSessions h now fs s p = ([], s)"
    if "cache s p = None \<or> \<not> now - lastSyncTime s < syncInterval" and "fs p = None" for s
    using that by (auto simp: getSessions_def split: option.splits bool.splits)
  have miss: "getSessions h now fs s p = getSessionsSpec h now fs s p
      \<and> fst (getSessions h now fs s p) = dbGetSessions (fst (syncProvider h now fs p (db s))) p
      \<and> db (snd (getSessions h now fs s p)) = fst (syncProvider h now fs p (db s))
      \<and> cache (snd (getSessions h now fs s p)) p = Some (fst (getSessions h now fs s p))"
    if "cache s p = None \<or> \<not> now - lastSyncTime s < syncInterval" and "fs p \<noteq> None" for s
    using that
    by (auto simp: getSessions_def getSessionsSpec_def Let_def split: option.splits bool.splits)
  have c: "cache (syncAll h t fs' st) = cache st"
    and l: "lastSyncTime (syncAll h t fs' st) = t"
    using syncAll_keeps_cache [of h t fs' st] by simp_all
  note hitA = hit [of "syncAll h t fs' st", unfolded c l]
    and goneA = gone [of "syncAll h t fs' st", unfolded c l]
    and missA = miss [of "syncAll h t fs' st", unfolded c l]
  show ?thesis
  proof (intro conjI impI)
    assume "cache st p = Some snapshot \<and> now - t < syncInterval"
    then show "getSessions h now fs (syncAll h t fs' st) p = (snapshot, syncAll h t fs' st)"
      using hitA by blast
  next
    assume "\<not> now - t < syncInterval \<and> fs p = None"
    then show "getSessions h now fs (syncAll h t fs' st) p = ([], syncAll h t fs' st)"
      using goneA by blast
  next
    assume a: "\<not> now - t < syncInterval \<and> fs p \<noteq> None"
    show "getSessions h now fs (syncAll h t fs' st) p
        = getSessionsSpec h now fs (syncAll h t fs' st) p"
      using a missA by blast
    show "fst (getSessions h now fs (syncAll h t fs' st) p)
        = dbGetSessions (fst (syncProvider h now fs p (db (syncAll h t fs' st)))) p"
      using a missA by blast
    show "db (snd (getSessions h now fs (syncAll h t fs' st) p))
        = fst (syncProvider h now fs p (db (syncAll h t fs' st)))"
      using a missA by blast
    show "cache (snd (getSessions h now fs (syncAll h t fs' st) p)) p
        = Some (fst (getSessions h now fs (syncAll h t fs' st) p))"
      using a missA by blast
  next
    assume "cache st p = None \<and> fs p = None"
    then show "getSessions h now fs st p = ([], st)"
      using gone [of st] by blast
  next
    assume a: "cache st p = None \<and> fs p \<noteq> None"
    show "getSessions h now fs st p = getSessionsSpec h now fs st p"
      using a miss [of st] by blast
    show "fst (getSessions h now fs st p) = dbGetSessions (fst (syncProvider h now fs p (db st))) p"
      using a miss [of st] by blast
    show "db (snd (getSessions h now fs st p)) = fst (syncProvider h now fs p (db st))"
      using a miss [of st] by blast
    show "cache (snd (getSessions h now fs st p)) p = Some (fst (getSessions h now fs st p))"
      using a miss [of st] by blast
  qed
qed

text \<open>On the examples, for a parser that holds an (empty) snapshot for Codex and has just
  run \<^verbatim>\<open>syncAll\<close>: asked two seconds later it answers from the snapshot; asked six
  seconds later it syncs the Codex directory and returns the one session now stored, or
  nothing when the directory is missing.  A parser without snapshot syncs at once, and
  returns nothing and stays as it is when the directory is missing.\<close>

theorem getSessions_cache_fronted_witness:
  "getSessions exampleHost 1700000402000 exampleFs
      (syncAll exampleHost 1700000400000 noDirectories warmState) codex
     = ([], syncAll exampleHost 1700000400000 noDirectories warmState)
   \<and> map path (fst (getSessions exampleHost 1700000406000 exampleFs
        (syncAll exampleHost 1700000400000 noDirectories warmState) codex))
       = [''/home/u/.codex/sessions/s2.jsonl'']
   \<and> getSessions exampleHost 1700000406000 noDirectories
        (syncAll exampleHost 1700000400000 noDirectories warmState) codex
       = ([], syncAll exampleHost 1700000400000 noDirectories warmState)
   \<and> getSessions exampleHost 1700000400000 noDirectories coldState codex = ([], coldState)
   \<and> map path (fst (getSessions exampleHost 1700000400000 exampleFs coldState codex))
       = [''/home/u/.codex/sessions/s2.jsonl'']"
proof -
  let ?warm = "syncAll exampleHost 1700000400000 noDirectories warmState"
  have w: "cache warmState codex = Some []"
    and c: "cache coldState codex = None"
    and n: "noDirectories codex = None"
    and e: "exampleFs codex \<noteq> None"
    by (simp_all add: warmState_def coldState_def noDirectories_def exampleFs_def)
  note t2 = getSessions_cache_fronted [of warmState codex "[]" 1700000402000 1700000400000
      exampleHost exampleFs noDirectories]
  note t6 = getSessions_cache_fronted [of warmState codex "[]" 1700000406000 1700000400000
      exampleHost exampleFs noDirectories]
  note t6n = getSessions_cache_fronted [of warmState codex "[]" 1700000406000 1700000400000
      exampleHost noDirectories noDirectories]
  note tc = getSessions_cache_fronted [of coldState codex "[]" 1700000400000 1700000400000
      exampleHost exampleFs noDirectories]
  note tcn = getSessions_cache_fronted [of coldState codex "[]" 1700000400000 1700000400000
      exampleHost noDirectories noDirectories]
  have a2: "(1700000402000::int) - 1700000400000 < syncInterval"
    and a6: "\<not> (1700000406000::int) - 1700000400000 < syncInterval"
    by (simp_all add: syncInterval_def)
  have hit: "getSessions exampleHost 1700000402000 exampleFs ?warm codex = ([], ?warm)"
    using t2 w a2 by blast
  have late: "fst (getSessions exampleHost 1700000406000 exampleFs ?warm codex)
      = dbGetSessions (fst (syncProvider exampleHost 1700000406000 exampleFs codex (db ?warm))) codex"
    using t6 e a6 by blast
  have lateGone: "getSessions exampleHost 1700000406000 noDirectories ?warm codex = ([], ?warm)"
    using t6n n a6 by blast
  have coldGone: "getSessions exampleHost 1700000400000 noDirectories coldState codex = ([], coldState)"
    using tcn c n by blast
  have cold: "fst (getSessions exampleHost 1700000400000 exampleFs coldState codex)
      = dbGetSessions (fst (syncProvider exampleHost 1700000400000 exampleFs codex (db coldState))) codex"
    using tc c e by blast
  have p1: "map path (dbGetSessions
      (fst (syncProvider exampleHost 1700000406000 exampleFs codex (db ?warm))) codex)
      = [''/home/u/.codex/sessions/s2.jsonl'']"
    by code_simp
  have p2: "map path (dbGetSessions
      (fst (syncProvider exampleHost 1700000400000 exampleFs codex (db coldState))) codex)
      = [''/home/u/.codex/sessions/s2.jsonl'']"
    by code_simp
  show ?thesis
    using hit lateGone coldGone p1 p2 by (simp add: late cold)
qed

section \<open>Recent sessions\<close>

subsection \<open>The stable sort\<close>

lemma mset_insertBy: "mset (insertBy before x ys) = add_mset x (mset ys)"
  by (induction ys) auto

lemma set_insertBy: "set (insertBy before x ys) = insert x (set ys)"
  by (induction ys) auto

lemma mset_sort_fold:
  "mset (foldl (\<lambda>acc x. insertBy before x acc) acc xs) = mset acc + mset xs"
  by (induction xs arbitrary: acc) (simp_all add: mset_insertBy)

lemma mset_sortBy: "mset (sortBy before xs) = mset xs"
  by (simp add: sortBy_def mset_sort_fold)

lemma sorted_insertBy:
  assumes tr: "\<And>a b c. before a b \<Longrightarrow> before b c \<Longrightarrow> before a c"
    and irr: "\<And>a. \<not> before a a"
    and "sorted_wrt (\<lambda>a b. \<not> before b a) ys"
  shows "sorted_wrt (\<lambda>a b. \<not> before b a) (insertBy before x ys)"
  using assms(3)
proof (induction ys)
  case Nil
  show ?case by simp
next
  case (Cons y ys)
  show ?case
  proof (cases "before x y")
    case True
    have "\<not> before z x" if "z \<in> set (y # ys)" for z
    proof
      assume "before z x"
      from this True have zy: "before z y" by (rule tr)
      show False
      proof (cases "z = y")
        case True
        with zy irr show False by simp
      next
        case False
        with that have "z \<in> set ys" by simp
        with Cons.prems zy show False by auto
      qed
    qed
    with True Cons.prems show ?thesis by auto
  next
    case False
    with Cons show ?thesis by (auto simp: set_insertBy)
  qed
qed

lemma sorted_sort_fold:
  assumes tr: "\<And>a b c. before a b \<Longrightarrow> before b c \<Longrightarrow> before a c"
    and irr: "\<And>a. \<not> before a a"
    and "sorted_wrt (\<lambda>a b. \<not> before b a) acc"
  shows "sorted_wrt (\<lambda>a b. \<not> before b a) (foldl (\<lambda>acc x. insertBy before x acc) acc xs)"
  using assms(3)
proof (induction xs arbitrary: acc)
  case Nil
  then show ?case by simp
next
  case (Cons x xs)
  have "sorted_wrt (\<lambda>a b. \<not> before b a) (insertBy before x acc)"
    using tr irr Cons.prems by (rule sorted_insertBy)
  then show ?case
    by (simp add: Cons.IH)
qed

lemma sorted_sortBy:
  assumes tr: "\<And>a b c. before a b \<Longrightarrow> before b c \<Longrightarrow> before a c"
    and irr: "\<And>a. \<not> before a a"
  shows "sorted_wrt (\<lambda>a b. \<not> before b a) (sortBy before xs)"
proof -
  have "sorted_wrt (\<lambda>a b. \<not> before b a) ([] :: 'a list)" by simp
  with tr irr show ?thesis unfolding sortBy_def by (rule sorted_sort_fold)
qed

subsection \<open>Sorting by a key, largest first\<close>

lemma filter_insertBy_key:
  fixes key :: "'a \<Rightarrow> rat"
  assumes "sorted_wrt (\<lambda>a b. key b \<le> key a) ys"
  shows "filter (\<lambda>z. key z = c) (insertBy (\<lambda>a b. key b - key a < 0) x ys)
         = filter (\<lambda>z. key z = c) ys @ (if key x = c then [x] else [])"
  using assms
proof (induction ys)
  case Nil
  show ?case by simp
next
  case (Cons y ys)
  show ?case
  proof (cases "key y - key x < 0")
    case True
    have lt: "key z < key x" if "z \<in> set (y # ys)" for z
      using that True Cons.prems by auto
    have "key x = c \<Longrightarrow> filter (\<lambda>z. key z = c) (y # ys) = []"
      unfolding filter_empty_conv using lt by fastforce
    with True show ?thesis by auto
  next
    case False
    with Cons show ?thesis by auto
  qed
qed

lemma sorted_sortBy_key:
  fixes key :: "'a \<Rightarrow> rat"
  shows "sorted_wrt (\<lambda>a b. key b \<le> key a) (sortBy (\<lambda>a b. key b - key a < 0) xs)"
proof -
  have "sorted_wrt (\<lambda>a b. \<not> key a - key b < 0) (sortBy (\<lambda>a b. key b - key a < 0) xs)"
    by (rule sorted_sortBy) auto
  then show ?thesis
    by (rule sorted_wrt_mono_rel [rotated]) auto
qed

lemma filter_sort_fold_key:
  fixes key :: "'a \<Rightarrow> rat"
  assumes "sorted_wrt (\<lambda>a b. key b \<le> key a) acc"
  shows "filter (\<lambda>z. key z = c) (foldl (\<lambda>acc x. insertBy (\<lambda>a b. key b - key a < 0) x acc) acc xs)
         = filter (\<lambda>z. key z = c) acc @ filter (\<lambda>z. key z = c) xs
       \<and> sorted_wrt (\<lambda>a b. key b \<le> key a)
           (foldl (\<lambda>acc x. insertBy (\<lambda>a b. key b - key a < 0) x acc) acc xs)"
  using assms
proof (induction xs arbitrary: acc)
  case Nil
  then show ?case by simp
next
  case (Cons x xs)
  have "sorted_wrt (\<lambda>a b. \<not> key a - key b < 0) acc"
    using Cons.prems by (rule sorted_wrt_mono_rel [rotated]) auto
  then have "sorted_wrt (\<lambda>a b. \<not> key a - key b < 0) (insertBy (\<lambda>a b. key b - key a < 0) x acc)"
    by (intro sorted_insertBy) auto
  then have s: "sorted_wrt (\<lambda>a b. key b \<le> key a) (insertBy (\<lambda>a b. key b - key a < 0) x acc)"
    by (rule sorted_wrt_mono_rel [rotated]) auto
  from Cons.IH [OF s] filter_insertBy_key [OF Cons.prems, of c x] show ?case
    by simp
qed

text \<open>The comparator sort of \<^verbatim>\<open>getAllUsage\<close> is the stable sort by date, latest first.\<close>

lemma sortBy_key_sort_key:
  fixes key :: "'a \<Rightarrow> rat"
  shows "sortBy (\<lambda>a b. key b - key a < 0) xs = sort_key (\<lambda>s. - key s) xs"
proof (rule sym, rule properties_for_sort_key)
  show "mset (sortBy (\<lambda>a b. key b - key a < 0) xs) = mset xs"
    by (rule mset_sortBy)
next
  fix k
  have "filter (\<lambda>z. key z = key k) (sortBy (\<lambda>a b. key b - key a < 0) xs)
      = filter (\<lambda>z. key z = key k) xs"
    using filter_sort_fold_key [of key "[]" "key k" xs] by (simp add: sortBy_def)
  moreover have "(\<lambda>x. - key k = - key x) = (\<lambda>z. key z = key k)"
    by auto
  ultimately show "filter (\<lambda>x. - key k = - key x) (sortBy (\<lambda>a b. key b - key a < 0) xs)
      = filter (\<lambda>x. - key k = - key x) xs"
    by simp
next
  have "sorted_wrt (\<lambda>a b. - key a \<le> - key b) (sortBy (\<lambda>a b. key b - key a < 0) xs)"
    using sorted_sortBy_key [of key xs] by simp
  then show "sorted (map (\<lambda>s. - key s) (sortBy (\<lambda>a b. key b - key a < 0) xs))"
    by (simp add: sorted_map)
qed

subsection \<open>The provider lists of the store\<close>

lemma strLess_irrefl: "\<not> strLess s s"
  by (induction s) auto

lemma strLess_trans: "strLess a b \<Longrightarrow> strLess b c \<Longrightarrow> strLess a c"
proof (induction a b arbitrary: c rule: strLess.induct)
  case (2 y ys)
  then show ?case by (cases c) auto
next
  case (4 x xs y ys)
  then show ?case by (cases c) auto
qed auto

lemma sqlLess_irrefl: "\<not> sqlLess v v"
  by (cases v) (auto simp: strLess_irrefl)

lemma sqlLess_trans: "sqlLess u v \<Longrightarrow> sqlLess v w \<Longrightarrow> sqlLess u w"
  by (cases u; cases v; cases w) (auto intro: strLess_trans)

text \<open>Each provider's list comes from the store in descending order of
  \<^verbatim>\<open>last_message\<close>: no session is followed by one with a larger value.\<close>

lemma dbGetSessions_descending:
  "sorted_wrt (\<lambda>a b. \<not> sqlLess (lastMessage a) (lastMessage b)) (dbGetSessions d p)"
  unfolding dbGetSessions_def
  by (rule sorted_sortBy) (auto intro: sqlLess_trans simp: sqlLess_irrefl)

lemma dbGetSessions_provider:
  "mset (dbGetSessions d p) = mset (filter (\<lambda>r. provider r = p) (sessions d))"
  by (simp add: dbGetSessions_def mset_sortBy)

subsection \<open>The list of recent sessions\<close>

lemma recentPool_pooled: "recentPool d = pooled d"
  by (simp add: recentPool_def pooled_def)

lemma strictly_sorted_distinct:
  fixes key :: "'a \<Rightarrow> rat"
  assumes "sorted_wrt (\<lambda>a b. key b \<le> key a) xs" and "distinct (map key xs)"
  shows "sorted_wrt (\<lambda>a b. key b < key a) xs"
  using assms by (induction xs) (auto simp: less_le image_iff)

text \<open>A number bound as \<^verbatim>\<open>last_message\<close> is stored as text and ordered as text: of
  two sessions stamped 9 and 10 the one stamped 9 comes first.\<close>

lemma numeric_timestamps_stored_as_text:
  "map lastMessage
     (dbGetSessions
        (upsertSession exampleHost
           (upsertSession exampleHost \<lparr>files = [], sessions = []\<rparr>
              (numberedSession ''/home/u/.codex/sessions/n10.jsonl'' 10))
           (numberedSession ''/home/u/.codex/sessions/n9.jsonl'' 9))
        codex)
   = [JStr ''9'', JStr ''10'']"
  by code_simp

text \<open>
  Claim C7.  After the sync of \<^verbatim>\<open>getAllUsage\<close>, each provider's list is the provider's
  stored sessions in descending order of \<^verbatim>\<open>last_message\<close> (the order of the store on
  that column: later text first, NULL last).  The \<^verbatim>\<open>recentSessions\<close> are the first 20
  of the pool, stably sorted by date with the latest first, where the pool holds the
  first 10 sessions of each provider's list and the date of a session without
  \<^verbatim>\<open>lastMessage\<close> is epoch 0.  Hence the list is in descending order of date, it has at
  most 20 entries, and it is in strictly descending order when the dates of the pooled
  sessions are distinct.
\<close>

theorem recentSessions_sorted_capped:
  "mset (dbGetSessions (db (fst (getAllUsage h now fs st))) p)
     = mset (filter (\<lambda>r. provider r = p) (sessions (db (fst (getAllUsage h now fs st)))))
   \<and> sorted_wrt (\<lambda>a b. \<not> sqlLess (lastMessage a) (lastMessage b))
        (dbGetSessions (db (fst (getAllUsage h now fs st))) p)
   \<and> pooled (db (fst (getAllUsage h now fs st)))
       = take 10 (dbGetSessions (db (fst (getAllUsage h now fs st))) claude)
         @ take 10 (dbGetSessions (db (fst (getAllUsage h now fs st))) codex)
         @ take 10 (dbGetSessions (db (fst (getAllUsage h now fs st))) gemini)
   \<and> snd (getAllUsage h now fs st)
       = take 20 (sort_key (\<lambda>s. - recentDate h s) (pooled (db (fst (getAllUsage h now fs st)))))
   \<and> sorted_wrt (\<lambda>a b. recentDate h b \<le> recentDate h a) (snd (getAllUsage h now fs st))
   \<and> length (snd (getAllUsage h now fs st)) \<le> 20
   \<and> (distinct (map (recentDate h) (pooled (db (fst (getAllUsage h now fs st))))) \<longrightarrow>
        sorted_wrt (\<lambda>a b. recentDate h b < recentDate h a) (snd (getAllUsage h now fs st)))
   \<and> (\<not> truthy (lastMessage s) \<longrightarrow> recentDate h s = 0)"
proof -
  let ?d = "db (fst (getAllUsage h now fs st))"
  let ?sorted = "sortBy (\<lambda>a b. recentDate h b - recentDate h a < 0) (pooled ?d)"
  have rs: "snd (getAllUsage h now fs st) = take 20 ?sorted"
    by (simp add: getAllUsage_def Let_def recentSessions_def recentPool_pooled)
  have eq: "?sorted = sort_key (\<lambda>s. - recentDate h s) (pooled ?d)"
    by (rule sortBy_key_sort_key)
  have so: "sorted_wrt (\<lambda>a b. recentDate h b \<le> recentDate h a) ?sorted"
    by (rule sorted_sortBy_key)
  then have st: "sorted_wrt (\<lambda>a b. recentDate h b \<le> recentDate h a) (take 20 ?sorted)"
    by (rule sorted_wrt_take)
  have strict: "sorted_wrt (\<lambda>a b. recentDate h b < recentDate h a) (take 20 ?sorted)"
    if dist: "distinct (map (recentDate h) (pooled ?d))"
  proof -
    have "mset (map (recentDate h) ?sorted) = mset (map (recentDate h) (pooled ?d))"
      by (simp add: mset_sortBy)
    with dist have "distinct (map (recentDate h) ?sorted)"
      by (metis mset_eq_imp_distinct_iff)
    then have "distinct (map (recentDate h) (take 20 ?sorted))"
      by (simp add: take_map [symmetric])
    with st show ?thesis by (rule strictly_sorted_distinct)
  qed
  have lists: "mset (dbGetSessions ?d p) = mset (filter (\<lambda>r. provider r = p) (sessions ?d))"
    "sorted_wrt (\<lambda>a b. \<not> sqlLess (lastMessage a) (lastMessage b)) (dbGetSessions ?d p)"
    by (rule dbGetSessions_provider, rule dbGetSessions_descending)
  have pool: "pooled ?d = take 10 (dbGetSessions ?d claude) @ take 10 (dbGetSessions ?d codex)
      @ take 10 (dbGetSessions ?d gemini)"
    by (simp add: pooled_def)
  show ?thesis
    unfolding rs using eq st strict lists pool by (simp add: recentDate_def)
qed

text \<open>On the example, where the store holds the Claude sessions oldest first: the Claude
  list comes latest first, so the pool takes the sessions of 12 down to 3 January and
  leaves out those of 1 and 2 January; the recent sessions are the Gemini session of
  14 January, the Codex session of 13 January, these ten Claude sessions, and the undated
  Codex session last.\<close>

theorem recentSessions_sorted_capped_witness:
  "map lastMessage
      (dbGetSessions (db (fst (getAllUsage exampleHost 1705300000000 noDirectories recentState)))
         claude)
     = map (\<lambda>k. JStr (januaryDay k)) (rev [1..<13])
   \<and> map lastMessage
      (dbGetSessions (db (fst (getAllUsage exampleHost 1705300000000 noDirectories recentState)))
         codex)
     = [JStr (januaryDay 13), JNull]
   \<and> distinct (map (recentDate exampleHost)
      (pooled (db (fst (getAllUsage exampleHost 1705300000000 noDirectories recentState)))))
   \<and> snd (getAllUsage exampleHost 1705300000000 noDirectories recentState)
       = [datedSession gemini ''/home/u/.gemini/tmp/c.json'' (JStr (januaryDay 14)),
          datedSession codex ''/home/u/.codex/sessions/d.jsonl'' (JStr (januaryDay 13))]
         @ map claudeDay (rev [3..<13])
         @ [datedSession codex ''/home/u/.codex/sessions/b.jsonl'' JNull]
   \<and> length (snd (getAllUsage exampleHost 1705300000000 noDirectories recentState)) = 13
   \<and> sorted_wrt (\<lambda>a b. recentDate exampleHost b < recentDate exampleHost a)
        (snd (getAllUsage exampleHost 1705300000000 noDirectories recentState))"
proof -
  have c: "map lastMessage
      (dbGetSessions (db (fst (getAllUsage exampleHost 1705300000000 noDirectories recentState)))
         claude)
     = map (\<lambda>k. JStr (januaryDay k)) (rev [1..<13])"
    by code_simp
  have x: "map lastMessage
      (dbGetSessions (db (fst (getAllUsage exampleHost 1705300000000 noDirectories recentState)))
         codex)
     = [JStr (januaryDay 13), JNull]"
    by code_simp
  have d: "distinct (map (recentDate exampleHost)
      (pooled (db (fst (getAllUsage exampleHost 1705300000000 noDirectories recentState)))))"
    by code_simp
  have r: "snd (getAllUsage exampleHost 1705300000000 noDirectories recentState)
       = [datedSession gemini ''/home/u/.gemini/tmp/c.json'' (JStr (januaryDay 14)),
          datedSession codex ''/home/u/.codex/sessions/d.jsonl'' (JStr (januaryDay 13))]
         @ map claudeDay (rev [3..<13])
         @ [datedSession codex ''/home/u/.codex/sessions/b.jsonl'' JNull]"
    by code_simp
  have n: "length (snd (getAllUsage exampleHost 1705300000000 noDirectories recentState)) = 13"
    by code_simp
  from recentSessions_sorted_capped [of exampleHost 1705300000000 noDirectories recentState]
    d have "sorted_wrt (\<lambda>a b. recentDate exampleHost b < recentDate exampleHost a)
        (snd (getAllUsage exampleHost 1705300000000 noDirectories recentState))"
    by blast
  with c x d r n show ?thesis by blast
qed

end
